theory Spec2Isabelle
  imports Complex_Main "HOL-Library.Monad_Syntax"
begin

section \<open>Values of coefficient functions\<close>

text \<open>
  The notebooks build coefficient functions: expressions that the finite-element
  library evaluates point by point on a mesh.  The embedding evaluates them over the
  real numbers; rounding of machine floats is not modelled.  A library function that
  yields no finite number on part of its domain (\<open>sqrt\<close> of a negative number,
  \<open>acos\<close> outside \<open>[-1, 1]\<close>, a division by zero) yields \<open>None\<close> there.
\<close>

type_synonym vec3 = "real \<times> real \<times> real"
type_synonym mat3 = "vec3 \<times> vec3 \<times> vec3"

definition cf_sqrt :: "real \<Rightarrow> real option" where
  "cf_sqrt x = (if x < 0 then None else Some (sqrt x))"

definition cf_acos :: "real \<Rightarrow> real option" where
  "cf_acos x = (if - 1 \<le> x \<and> x \<le> 1 then Some (arccos x) else None)"

definition cf_div :: "real \<Rightarrow> real \<Rightarrow> real option" where
  "cf_div a b = (if b = 0 then None else Some (a / b))"

text \<open>
  Modelled from the spec: the tensor operators that the notebooks compose
  (\<open>OuterProduct\<close>, \<open>Trace\<close>, \<open>Det\<close>, \<open>Cross\<close>, \<open>InnerProduct\<close>, the product \<open>*\<close> of two
  vectors, \<open>Normalize\<close>) are primitives of the finite-element library, which is not part
  of the repository.  The specification names them as the outer product, the trace, the
  determinant and the cross product; they have these meanings here, on 3-vectors and
  3 by 3 matrices stored by rows.
\<close>

fun OuterProduct :: "vec3 \<Rightarrow> vec3 \<Rightarrow> mat3" where
  "OuterProduct (a0, a1, a2) (b0, b1, b2) =
     ((a0 * b0, a0 * b1, a0 * b2),
      (a1 * b0, a1 * b1, a1 * b2),
      (a2 * b0, a2 * b1, a2 * b2))"

fun vec_add :: "vec3 \<Rightarrow> vec3 \<Rightarrow> vec3" where
  "vec_add (a0, a1, a2) (b0, b1, b2) = (a0 + b0, a1 + b1, a2 + b2)"

fun mat_add :: "mat3 \<Rightarrow> mat3 \<Rightarrow> mat3" where
  "mat_add (r0, r1, r2) (s0, s1, s2) = (vec_add r0 s0, vec_add r1 s1, vec_add r2 s2)"

fun Trace :: "mat3 \<Rightarrow> real" where
  "Trace ((a00, a01, a02), (a10, a11, a12), (a20, a21, a22)) = a00 + a11 + a22"

fun Det :: "mat3 \<Rightarrow> real" where
  "Det ((a00, a01, a02), (a10, a11, a12), (a20, a21, a22)) =
     a00 * (a11 * a22 - a12 * a21)
     - a01 * (a10 * a22 - a12 * a20)
     + a02 * (a10 * a21 - a11 * a20)"

section \<open>Extrinsic curvature of a smooth surface\<close>

text \<open>
  A point of a surface mesh, as the coefficient functions of the notebooks see it:
  the value of \<open>ng.specialcf.normal(3)\<close> there, and the value of \<open>Grad\<close> of that
  normal (the surface gradient, which the library computes from the element mapping).
\<close>

record SurfacePoint =
  normal :: vec3
  Grad_normal :: mat3

text \<open>
  \<^verbatim>\<open>
  def GaussCurvature():
      nu = ng.specialcf.normal(3)
      W = Grad(nu)
      return Det(W + OuterProduct(nu, nu))
  \<close>
\<close>

definition GaussCurvature :: "SurfacePoint \<Rightarrow> real" where
  "GaussCurvature =
     (let nu = normal;
          W = Grad_normal
      in (\<lambda>p. Det (mat_add (W p) (OuterProduct (nu p) (nu p)))))"

text \<open>
  \<^verbatim>\<open>
  def ExtrinsicCurvatureSmooth(mesh):
      nu = ng.specialcf.normal(3)
      W = Grad(nu)
      H = 0.5 * Trace(W)
      K = Det(W + OuterProduct(nu, nu))
      k1 = H + sqrt(H**2 - K)
      k2 = H - sqrt(H**2 - K)
      return H, K, k1, k2
  \<close>
  The mesh argument is not read: the four results are coefficient functions, evaluated
  later on whatever mesh they are drawn on.
\<close>

definition ExtrinsicCurvatureSmooth ::
  "'mesh \<Rightarrow> (SurfacePoint \<Rightarrow> real) \<times> (SurfacePoint \<Rightarrow> real)
     \<times> (SurfacePoint \<Rightarrow> real option) \<times> (SurfacePoint \<Rightarrow> real option)" where
  "ExtrinsicCurvatureSmooth mesh =
     (let nu = normal;
          W = Grad_normal;
          H = (\<lambda>p. 0.5 * Trace (W p));
          K = (\<lambda>p. Det (mat_add (W p) (OuterProduct (nu p) (nu p))));
          k1 = (\<lambda>p. map_option (\<lambda>s. H p + s) (cf_sqrt ((H p)\<^sup>2 - K p)));
          k2 = (\<lambda>p. map_option (\<lambda>s. H p - s) (cf_sqrt ((H p)\<^sup>2 - K p)))
      in (H, K, k1, k2))"

text \<open>The four returned fields, by position.\<close>

definition ret_H :: "'a \<times> 'b \<times> 'c \<times> 'd \<Rightarrow> 'a" where "ret_H r = fst r"
definition ret_K :: "'a \<times> 'b \<times> 'c \<times> 'd \<Rightarrow> 'b" where "ret_K r = fst (snd r)"
definition ret_k1 :: "'a \<times> 'b \<times> 'c \<times> 'd \<Rightarrow> 'c" where "ret_k1 r = fst (snd (snd r))"
definition ret_k2 :: "'a \<times> 'b \<times> 'c \<times> 'd \<Rightarrow> 'd" where "ret_k2 r = snd (snd (snd r))"

text \<open>The zero matrix: the Weingarten tensor of a flat piece of surface.\<close>

definition zero_mat3 :: mat3 where
  "zero_mat3 = ((0, 0, 0), (0, 0, 0), (0, 0, 0))"

text \<open>
  Test data.  A point of a cylinder of radius \<open>R\<close> about the x axis, at angle \<open>phi\<close>
  around the axis, with the outward unit normal \<open>(0, cos phi, sin phi)\<close> and its
  surface gradient \<open>(1 / R) * e e\<^sup>T\<close>, where \<open>e = (0, - sin phi, cos phi)\<close> is the
  direction around the axis.  The notebook's cylinder is \<open>Cylinder((0,0,0), X, r=2, h=3)\<close>.
\<close>

definition cylinder_point :: "real \<Rightarrow> real \<Rightarrow> SurfacePoint" where
  "cylinder_point R phi =
     \<lparr> normal = (0, cos phi, sin phi),
       Grad_normal = ((0, 0, 0),
                      (0, (sin phi)\<^sup>2 / R, - (cos phi * sin phi) / R),
                      (0, - (cos phi * sin phi) / R, (cos phi)\<^sup>2 / R)) \<rparr>"

text \<open>
  A point of a saddle: normal along z, the surface bending up along x and down along y
  by the same amount.
\<close>

definition saddle_point :: SurfacePoint where
  "saddle_point =
     \<lparr> normal = (0, 0, 1), Grad_normal = ((1, 0, 0), (0, - 1, 0), (0, 0, 0)) \<rparr>"

section \<open>Meshes, integration points and finite-element bases\<close>

text \<open>
  The remaining operators on 3-vectors: the product \<open>*\<close> of two vectors (their inner
  product), \<open>Cross\<close>, the negation of a vector, the product with a scalar and \<open>Normalize\<close>
  (division by the Euclidean norm, no finite value for the zero vector).
\<close>

fun vdot :: "vec3 \<Rightarrow> vec3 \<Rightarrow> real" where
  "vdot (a0, a1, a2) (b0, b1, b2) = a0 * b0 + a1 * b1 + a2 * b2"

fun Cross :: "vec3 \<Rightarrow> vec3 \<Rightarrow> vec3" where
  "Cross (a0, a1, a2) (b0, b1, b2) =
     (a1 * b2 - a2 * b1, a2 * b0 - a0 * b2, a0 * b1 - a1 * b0)"

fun vec_neg :: "vec3 \<Rightarrow> vec3" where
  "vec_neg (a0, a1, a2) = (- a0, - a1, - a2)"

fun vec_scale :: "real \<Rightarrow> vec3 \<Rightarrow> vec3" where
  "vec_scale c (a0, a1, a2) = (c * a0, c * a1, c * a2)"

definition Normalize :: "vec3 \<Rightarrow> vec3 option" where
  "Normalize a =
     do { n \<leftarrow> cf_sqrt (vdot a a);
          if n = 0 then None else Some (vec_scale (1 / n) a) }"

text \<open>
  A sum of values of which some may not be finite: the sum is a number only when every
  term is one.
\<close>

fun opt_sum :: "real option list \<Rightarrow> real option" where
  "opt_sum [] = Some 0"
| "opt_sum (x # xs) = do { a \<leftarrow> x; s \<leftarrow> opt_sum xs; Some (a + s) }"

text \<open>
  The counts of a mesh that \<open>EulerChar\<close> reads, and
  \<^verbatim>\<open>
  def EulerChar(mesh):
      return mesh.nface - mesh.nedge + mesh.nv
  \<close>
  with Python's unbounded integers.
\<close>

record MeshCounts =
  nv :: nat
  nedge :: nat
  nface :: nat

definition EulerChar :: "'a MeshCounts_scheme \<Rightarrow> int" where
  "EulerChar mesh = int (nface mesh) - int (nedge mesh) + int (nv mesh)"

text \<open>
  A Lagrange basis on a mesh, as far as the assembly reads it: the number of degrees of
  freedom, the value \<open>shape i p\<close> of basis function \<open>i\<close> at the integration point with
  identifier \<open>p\<close>, and which degrees of freedom sit on the boundary of the mesh.
\<close>

record Basis =
  ndof :: nat
  shape :: "nat \<Rightarrow> nat \<Rightarrow> real"
  on_boundary :: "nat \<Rightarrow> bool"

text \<open>
  Integration points of a surface mesh in space, each with an identifier and the values
  there of the special coefficient functions that the notebooks read.
  \<^item> A point of \<open>ds\<close> inside an element: its weight, the normal and the gradient of the
    normal.
  \<^item> A point of \<open>ds(element_boundary=True)\<close> on the boundary of an element: its weight,
    \<open>normal(3)\<close>, \<open>tangential(3)\<close> and \<open>EdgeCurvature(3)\<close> as seen from that element.
  \<^item> A point of \<open>ds(element_vb=BBND)\<close>: a vertex of an element, with the mesh vertex it
    is and the two columns of \<open>VertexTangentialVectors(3)\<close>, the tangents of the two
    edges of the element that meet there.
\<close>

record SurfPt =
  sp_id :: nat
  sp_weight :: real
  sp_point :: SurfacePoint

record BndPt =
  bp_id :: nat
  bp_weight :: real
  bp_normal :: vec3
  bp_tangential :: vec3
  bp_EdgeCurvature :: vec3

record VtxPt =
  vp_id :: nat
  vp_vertex :: nat
  vp_vt1 :: vec3
  vp_vt2 :: vec3

text \<open>
  A surface mesh: its counts, the integration points the library uses for a linear
  form (\<open>lf_\<close>) and for a bilinear form (\<open>bf_\<close>) on a space of a given order with a given
  \<open>bonus_intorder\<close>, and its Lagrange basis of each order.
\<close>

record SurfaceMesh = MeshCounts +
  lf_ds :: "nat \<Rightarrow> nat \<Rightarrow> SurfPt list"
  lf_ds_boundary :: "nat \<Rightarrow> nat \<Rightarrow> BndPt list"
  lf_ds_bbnd :: "VtxPt list"
  bf_ds :: "nat \<Rightarrow> nat \<Rightarrow> SurfPt list"
  lagrange :: "nat \<Rightarrow> Basis"

text \<open>A finite-element space: a basis and the degrees of freedom that are free.\<close>

record FESpace =
  basis :: Basis
  FreeDofs :: "bool list"

text \<open>
  The constructor of the library, \<open>H1(mesh, order=k)\<close> and
  \<open>H1(mesh, order=k, dirichlet=".*")\<close>, applied to the Lagrange basis of the mesh of that
  order.  The pattern \<open>.*\<close> matches the name of every boundary, so each degree of freedom
  on the boundary is constrained; without \<open>dirichlet\<close> every degree of freedom is free.
\<close>

definition H1 :: "Basis \<Rightarrow> bool \<Rightarrow> FESpace" where
  "H1 b dirichlet_all =
     \<lparr> basis = b,
       FreeDofs = map (\<lambda>i. \<not> (dirichlet_all \<and> on_boundary b i)) [0..<ndof b] \<rparr>"

text \<open>Vectors and matrices of coefficients, and the product of a matrix and a vector.\<close>

type_synonym dvec = "real list"
type_synonym dmat = "real list list"

definition mat_vec :: "dmat \<Rightarrow> dvec \<Rightarrow> dvec" where
  "mat_vec A x = map (\<lambda>row. (\<Sum>j < length x. row ! j * x ! j)) A"

section \<open>The generalized Gauss curvature, extrinsic form\<close>

text \<open>
  The loop
  \<^verbatim>\<open>
  for i in range(f.space.mesh.nv):
      f.vec[i] += 2*pi
  \<close>
  over a list of indices; an index past the end of the vector is an error.
\<close>

fun add_2pi :: "nat list \<Rightarrow> dvec \<Rightarrow> dvec option" where
  "add_2pi [] f = Some f"
| "add_2pi (i # is) f =
     (if i < length f then add_2pi is (f[i := f ! i + 2 * pi]) else None)"

text \<open>
  The three terms of the linear form, for the test function \<open>v\<close> that is basis function
  \<open>i\<close>:
  \<^verbatim>\<open>
  mu = Cross(ng.specialcf.normal(3), ng.specialcf.tangential(3))
  edgecurve = ng.specialcf.EdgeCurvature(3) # nabla_t t
  bbndtang = ng.specialcf.VertexTangentialVectors(3)
  vt1 = bbndtang[:,0]
  vt2 = bbndtang[:,1]
  f += GaussCurvature()*v*ds(bonus_intorder=12)
  f += -mu * edgecurve*v*ds(element_boundary=True, bonus_intorder=12)
  f += -v*acos(vt1*vt2)*ds(element_vb=ng.BBND)
  \<close>
\<close>

definition ext_element_term :: "Basis \<Rightarrow> nat \<Rightarrow> SurfPt \<Rightarrow> real option" where
  "ext_element_term V i p =
     Some (GaussCurvature (sp_point p) * shape V i (sp_id p) * sp_weight p)"

definition ext_edge_term :: "Basis \<Rightarrow> nat \<Rightarrow> BndPt \<Rightarrow> real option" where
  "ext_edge_term V i p =
     (let mu = Cross (bp_normal p) (bp_tangential p);
          edgecurve = bp_EdgeCurvature p
      in Some (vdot (vec_neg mu) edgecurve * shape V i (bp_id p) * bp_weight p))"

definition ext_vertex_term :: "Basis \<Rightarrow> nat \<Rightarrow> VtxPt \<Rightarrow> real option" where
  "ext_vertex_term V i p =
     (let vt1 = vp_vt1 p; vt2 = vp_vt2 p
      in do { a \<leftarrow> cf_acos (vdot vt1 vt2); Some (- shape V i (vp_id p) * a) })"

text \<open>\<open>f.Assemble()\<close>: entry \<open>i\<close> of the vector is the sum of the three terms.\<close>

definition ext_assemble_entry :: "SurfaceMesh \<Rightarrow> nat \<Rightarrow> nat \<Rightarrow> real option" where
  "ext_assemble_entry surface_mesh lift_order i =
     (let V = lagrange surface_mesh lift_order
      in do { a \<leftarrow> opt_sum (map (ext_element_term V i) (lf_ds surface_mesh lift_order 12));
              b \<leftarrow> opt_sum (map (ext_edge_term V i) (lf_ds_boundary surface_mesh lift_order 12));
              c \<leftarrow> opt_sum (map (ext_vertex_term V i) (lf_ds_bbnd surface_mesh));
              Some (a + b + c) })"

text \<open>A vector of which every entry must be a number.\<close>

fun all_some :: "'a option list \<Rightarrow> 'a list option" where
  "all_some [] = Some []"
| "all_some (x # xs) = do { a \<leftarrow> x; as \<leftarrow> all_some xs; Some (a # as) }"

text \<open>
  The load vector after \<open>f.Assemble()\<close> and the loop that adds \<open>2 pi\<close> to the first \<open>nv\<close>
  entries, the entries of the vertices.
\<close>

definition ext_load_vector :: "SurfaceMesh \<Rightarrow> nat \<Rightarrow> dvec option" where
  "ext_load_vector surface_mesh lift_order =
     do { f \<leftarrow> all_some (map (ext_assemble_entry surface_mesh lift_order)
                          [0..<ndof (lagrange surface_mesh lift_order)]);
          add_2pi [0..<nv surface_mesh] f }"

text \<open>\<open>mass = BilinearForm(u*v*ds(bonus_intorder=6)).Assemble().mat\<close>\<close>

definition ext_mass :: "SurfaceMesh \<Rightarrow> nat \<Rightarrow> dmat" where
  "ext_mass surface_mesh lift_order =
     (let V = lagrange surface_mesh lift_order
      in map (\<lambda>i. map (\<lambda>j. (\<Sum>p \<leftarrow> bf_ds surface_mesh lift_order 6.
                              shape V j (sp_id p) * shape V i (sp_id p) * sp_weight p))
                        [0..<ndof V])
             [0..<ndof V])"

text \<open>
  \<^verbatim>\<open>
  def GeneralizedGaussCurvatureExtrinsic(surface_mesh, lift_order):
      ...
      V = H1(surface_mesh, order=lift_order)
      ...
      Kh = GridFunction(V)
      mass = BilinearForm(u*v*ds(bonus_intorder=6)).Assemble().mat
      Kh.vec.data = mass.Inverse()*f.vec
      return Kh
  \<close>
  The sparse solver of the library, \<open>Inverse\<close>, is a parameter: it takes a matrix and the
  flags of the free degrees of freedom and returns the matrix of the inverse operator.
  \<open>mass.Inverse()\<close> inverts on every degree of freedom.  The result is the coefficient
  vector of the returned GridFunction.
\<close>

definition GeneralizedGaussCurvatureExtrinsic ::
  "(dmat \<Rightarrow> bool list \<Rightarrow> dmat) \<Rightarrow> SurfaceMesh \<Rightarrow> nat \<Rightarrow> dvec option" where
  "GeneralizedGaussCurvatureExtrinsic Inverse surface_mesh lift_order =
     (let V = H1 (lagrange surface_mesh lift_order) False
      in do { f \<leftarrow> ext_load_vector surface_mesh lift_order;
              let mass = ext_mass surface_mesh lift_order;
              Some (mat_vec (Inverse mass (FreeDofs V)) f) })"

text \<open>
  Test data.  The surface of the unit cube \<open>Box((0,0,0), (1,1,1))\<close>, each of its six
  square faces cut into two triangles by one of its diagonals: 8 vertices, 18 edges
  and 12 triangles.  Vertex \<open>v\<close> (0 to 7) has coordinates the three binary digits of
  \<open>v\<close>.  Face \<open>f\<close> (0 to 5) is the face on which coordinate \<open>f div 2\<close> has the value
  \<open>f mod 2\<close>.  The mesh generator chooses the diagonals; \<open>diag f\<close> tells which one cuts
  face \<open>f\<close>: the diagonal through the two vertices of the face whose other two
  coordinates are equal, or the other one.
\<close>

definition axis_vec :: "nat \<Rightarrow> real \<Rightarrow> vec3" where
  "axis_vec a s = (if a = 0 then (s, 0, 0) else if a = 1 then (0, s, 0) else (0, 0, s))"

definition cube_bit :: "nat \<Rightarrow> nat \<Rightarrow> nat" where
  "cube_bit v a = (v div 2 ^ a) mod 2"

text \<open>
  The unit tangent at vertex \<open>v\<close> of the cube edge along axis \<open>a\<close>, and of the diagonal
  of the face spanned by the axes \<open>k\<close> and \<open>k + 1\<close>; both point away from the vertex.
\<close>

definition cube_dir :: "nat \<Rightarrow> nat \<Rightarrow> vec3" where
  "cube_dir v a = axis_vec a (if cube_bit v a = 0 then 1 else - 1)"

definition cube_diag_dir :: "nat \<Rightarrow> nat \<Rightarrow> vec3" where
  "cube_diag_dir v k =
     vec_scale (sqrt 2 / 2) (vec_add (cube_dir v k) (cube_dir v ((k + 1) mod 3)))"

text \<open>
  The face at vertex \<open>v\<close> spanned by the axes \<open>k\<close> and \<open>k + 1\<close> is the one across axis
  \<open>k + 2\<close>.  When its diagonal passes through \<open>v\<close>, two triangles of that face have a
  vertex there, each between an edge of the cube and the diagonal; otherwise one triangle
  has, between the two edges of the cube.  The element vertices at \<open>v\<close> have the
  identifiers \<open>6 v\<close> to \<open>6 v + 5\<close>.
\<close>

definition cube_face_of :: "nat \<Rightarrow> nat \<Rightarrow> nat" where
  "cube_face_of v a = 2 * a + cube_bit v a"

definition on_diagonal :: "(nat \<Rightarrow> bool) \<Rightarrow> nat \<Rightarrow> nat \<Rightarrow> bool" where
  "on_diagonal diag v k \<longleftrightarrow>
     diag (cube_face_of v ((k + 2) mod 3)) = (cube_bit v k = cube_bit v ((k + 1) mod 3))"

definition cube_face_corners :: "(nat \<Rightarrow> bool) \<Rightarrow> nat \<Rightarrow> nat \<Rightarrow> VtxPt list" where
  "cube_face_corners diag v k =
     (if on_diagonal diag v k
      then [\<lparr> vp_id = 6 * v + 2 * k, vp_vertex = v,
              vp_vt1 = cube_dir v k, vp_vt2 = cube_diag_dir v k \<rparr>,
            \<lparr> vp_id = 6 * v + 2 * k + 1, vp_vertex = v,
              vp_vt1 = cube_diag_dir v k, vp_vt2 = cube_dir v ((k + 1) mod 3) \<rparr>]
      else [\<lparr> vp_id = 6 * v + 2 * k, vp_vertex = v,
              vp_vt1 = cube_dir v k, vp_vt2 = cube_dir v ((k + 1) mod 3) \<rparr>])"

definition cube_corners_at :: "(nat \<Rightarrow> bool) \<Rightarrow> nat \<Rightarrow> VtxPt list" where
  "cube_corners_at diag v = concat (map (cube_face_corners diag v) [0, 1, 2])"

definition cube_corners :: "(nat \<Rightarrow> bool) \<Rightarrow> VtxPt list" where
  "cube_corners diag = concat (map (cube_corners_at diag) [0, 1, 2, 3, 4, 5, 6, 7])"

text \<open>The angle that the vertex term computes at an element vertex, \<open>acos(vt1*vt2)\<close>.\<close>

definition corner_angle :: "VtxPt \<Rightarrow> real" where
  "corner_angle c = arccos (vdot (vp_vt1 c) (vp_vt2 c))"

text \<open>
  A triangulated mesh of the cube surface for a space of order \<open>k\<close>: the counts of the
  mesh, its 36 element vertices, flat triangles (the gradient of the normal vanishes at
  every integration point inside an element), straight edges (\<open>EdgeCurvature\<close>
  vanishes at every integration point on an element boundary), and a basis whose
  function \<open>i < 8\<close> is one at vertex \<open>i\<close> and zero at every other vertex.
\<close>

definition is_cube_mesh :: "(nat \<Rightarrow> bool) \<Rightarrow> SurfaceMesh \<Rightarrow> nat \<Rightarrow> bool" where
  "is_cube_mesh diag m k \<longleftrightarrow>
     nv m = 8 \<and> nedge m = 18 \<and> nface m = 12
     \<and> lf_ds_bbnd m = cube_corners diag
     \<and> list_all (\<lambda>p. Grad_normal (sp_point p) = zero_mat3) (lf_ds m k 12)
     \<and> list_all (\<lambda>p. bp_EdgeCurvature p = (0, 0, 0)) (lf_ds_boundary m k 12)
     \<and> 8 \<le> ndof (lagrange m k)
     \<and> list_all (\<lambda>c. list_all (\<lambda>i. shape (lagrange m k) i (vp_id c)
                                     = (if i = vp_vertex c then 1 else 0))
                              [0..<ndof (lagrange m k)]) (cube_corners diag)"

text \<open>
  One such mesh for each choice of the diagonals, for order 1.  Triangle \<open>t\<close> (0 to 11)
  is one of the two triangles of face \<open>t div 2\<close>, given by its three vertices;
  \<open>face_vertex f b c\<close> is the vertex of face \<open>f\<close> whose other two coordinates are \<open>b\<close> and
  \<open>c\<close>.  The integration points are numbered: \<open>6 v\<close> to \<open>6 v + 5\<close> are the element
  vertices at vertex \<open>v\<close>, \<open>48 + t\<close> is the centroid of triangle \<open>t\<close>, and \<open>60 + 3 t + e\<close>
  is the midpoint of the edge of triangle \<open>t\<close> opposite to its vertex \<open>e\<close>.  Linear forms
  integrate by the centroid rule on triangles and the midpoint rule on edges; the mass
  matrix by the rule of the three edge midpoints, which is exact for products of two
  linear functions.
\<close>

definition face_vertex :: "nat \<Rightarrow> nat \<Rightarrow> nat \<Rightarrow> nat" where
  "face_vertex f b c =
     (f mod 2) * 2 ^ (f div 2) + b * 2 ^ ((f div 2 + 1) mod 3) + c * 2 ^ ((f div 2 + 2) mod 3)"

definition cube_triangle :: "(nat \<Rightarrow> bool) \<Rightarrow> nat \<Rightarrow> nat list" where
  "cube_triangle diag t =
     (let f = t div 2
      in if diag f
         then (if t mod 2 = 0
               then [face_vertex f 0 0, face_vertex f 1 0, face_vertex f 1 1]
               else [face_vertex f 0 0, face_vertex f 1 1, face_vertex f 0 1])
         else (if t mod 2 = 0
               then [face_vertex f 0 0, face_vertex f 1 0, face_vertex f 0 1]
               else [face_vertex f 1 0, face_vertex f 1 1, face_vertex f 0 1]))"

definition cube_coord :: "nat \<Rightarrow> vec3" where
  "cube_coord v = (real (cube_bit v 0), real (cube_bit v 1), real (cube_bit v 2))"

definition face_normal :: "nat \<Rightarrow> vec3" where
  "face_normal f = axis_vec (f div 2) (if f mod 2 = 0 then - 1 else 1)"

definition cube_centroid_point :: "nat \<Rightarrow> SurfPt" where
  "cube_centroid_point t =
     \<lparr> sp_id = 48 + t, sp_weight = 1 / 2,
       sp_point = \<lparr> normal = face_normal (t div 2), Grad_normal = zero_mat3 \<rparr> \<rparr>"

definition cube_mass_point :: "nat \<Rightarrow> nat \<Rightarrow> SurfPt" where
  "cube_mass_point t e =
     \<lparr> sp_id = 60 + 3 * t + e, sp_weight = 1 / 6,
       sp_point = \<lparr> normal = face_normal (t div 2), Grad_normal = zero_mat3 \<rparr> \<rparr>"

definition cube_edge_point :: "(nat \<Rightarrow> bool) \<Rightarrow> nat \<Rightarrow> nat \<Rightarrow> BndPt" where
  "cube_edge_point diag t e =
     (let a = cube_coord (cube_triangle diag t ! ((e + 1) mod 3));
          b = cube_coord (cube_triangle diag t ! ((e + 2) mod 3));
          d = vec_add b (vec_neg a)
      in \<lparr> bp_id = 60 + 3 * t + e, bp_weight = sqrt (vdot d d),
           bp_normal = face_normal (t div 2),
           bp_tangential = vec_scale (1 / sqrt (vdot d d)) d,
           bp_EdgeCurvature = (0, 0, 0) \<rparr>)"

definition cube_shape :: "(nat \<Rightarrow> bool) \<Rightarrow> nat \<Rightarrow> nat \<Rightarrow> real" where
  "cube_shape diag i p =
     (if p < 48 then (if p div 6 = i then 1 else 0)
      else if p < 60 then (if i \<in> set (cube_triangle diag (p - 48)) then 1 / 3 else 0)
      else (let t = (p - 60) div 3; e = (p - 60) mod 3
            in if i = cube_triangle diag t ! ((e + 1) mod 3)
                  \<or> i = cube_triangle diag t ! ((e + 2) mod 3) then 1 / 2 else 0))"

definition cube_basis :: "(nat \<Rightarrow> bool) \<Rightarrow> Basis" where
  "cube_basis diag = \<lparr> ndof = 8, shape = cube_shape diag, on_boundary = (\<lambda>i. False) \<rparr>"

definition cube_mesh :: "(nat \<Rightarrow> bool) \<Rightarrow> SurfaceMesh" where
  "cube_mesh diag =
     \<lparr> nv = 8, nedge = 18, nface = 12,
       lf_ds = (\<lambda>k bonus. map cube_centroid_point [0..<12]),
       lf_ds_boundary =
         (\<lambda>k bonus. concat (map (\<lambda>t. map (cube_edge_point diag t) [0, 1, 2]) [0..<12])),
       lf_ds_bbnd = cube_corners diag,
       bf_ds = (\<lambda>k bonus. concat (map (\<lambda>t. map (cube_mass_point t) [0, 1, 2]) [0..<12])),
       lagrange = (\<lambda>k. cube_basis diag) \<rparr>"

text \<open>
  A choice of diagonals that has both kinds of vertex on every face pair: the first
  kind of diagonal on the faces where a coordinate is 0, the other kind where it is 1.
\<close>

definition mixed_diag :: "nat \<Rightarrow> bool" where
  "mixed_diag f \<longleftrightarrow> f mod 2 = 0"

section \<open>The generalized Weingarten tensor\<close>

text \<open>
  The inner product of two matrices (\<open>InnerProduct\<close>, entry by entry) and the value
  \<open>tau[mu, mu]\<close> of a matrix on a pair of vectors.
\<close>

fun InnerProduct :: "mat3 \<Rightarrow> mat3 \<Rightarrow> real" where
  "InnerProduct (r0, r1, r2) (s0, s1, s2) = vdot r0 s0 + vdot r1 s1 + vdot r2 s2"

fun mat_apply :: "mat3 \<Rightarrow> vec3 \<Rightarrow> vec3" where
  "mat_apply (r0, r1, r2) a = (vdot r0 a, vdot r1 a, vdot r2 a)"

definition bilin :: "mat3 \<Rightarrow> vec3 \<Rightarrow> vec3 \<Rightarrow> real" where
  "bilin A a b = vdot a (mat_apply A b)"

text \<open>
  A point of the integration rule on an edge shared by two elements \<open>T+\<close> and \<open>T-\<close>: its
  weight and, from either side, the identifier of the point as a point of that element
  and the values of \<open>normal(3)\<close> and \<open>tangential(3)\<close> there.
\<close>

record EdgeSide =
  es_id :: nat
  es_normal :: vec3
  es_tangential :: vec3

record EdgePt =
  eg_weight :: real
  eg_plus :: EdgeSide
  eg_minus :: EdgeSide

text \<open>
  \<^verbatim>\<open>
  # Average normal vector nu_avg = (nu_+ + nu_-)/2
  nu_avg = GridFunction(ng.VectorFacetSurface(mesh, order=lifting_order))
  nu_avg.Set(nu, dual=True, definedon=mesh.Boundaries(".*"))
  \<close>
  A function on the edges, with one value at a point of an edge, the mean of the
  normals of the two sides.
\<close>

definition nu_avg :: "EdgePt \<Rightarrow> vec3" where
  "nu_avg e = vec_scale (1 / 2) (vec_add (es_normal (eg_plus e)) (es_normal (eg_minus e)))"

text \<open>
  A point of \<open>ds(element_boundary=True)\<close>: one side of a point of an edge, with the value
  of \<open>nu_avg\<close> and the weight of that point.  The boundaries of the elements run through
  each point of an edge between two elements twice, once from either side, and through
  each point of an edge on the border of the surface once; there \<open>nu_avg\<close> is the normal
  of the only element.
\<close>

record WBndPt =
  wb_side :: EdgeSide
  wb_nu_avg :: vec3
  wb_weight :: real

definition element_boundary :: "EdgePt list \<Rightarrow> (EdgeSide \<times> real) list \<Rightarrow> WBndPt list" where
  "element_boundary es bs =
     concat (map (\<lambda>e. [\<lparr> wb_side = eg_plus e, wb_nu_avg = nu_avg e, wb_weight = eg_weight e \<rparr>,
                        \<lparr> wb_side = eg_minus e, wb_nu_avg = nu_avg e, wb_weight = eg_weight e \<rparr>])
                 es)
     @ map (\<lambda>(s, w). \<lparr> wb_side = s, wb_nu_avg = es_normal s, wb_weight = w \<rparr>) bs"

text \<open>
  A basis of matrix-valued functions (the surface Hellan-Herrmann-Johnson space): the
  value \<open>t_shape i p\<close> of basis function \<open>i\<close> at the point with identifier \<open>p\<close>, and the
  free degrees of freedom.
\<close>

record TensorBasis =
  t_ndof :: nat
  t_shape :: "nat \<Rightarrow> nat \<Rightarrow> mat3"
  t_FreeDofs :: "bool list"

text \<open>
  A surface mesh as \<open>GeneralizedWeingarten\<close> reads it, for a space of a given order: the
  integration points inside the elements, on the edges between two elements, and on
  the edges of the border (each with its weight), and the tensor basis.
\<close>

record WeingartenMesh = MeshCounts +
  wm_ds :: "nat \<Rightarrow> SurfPt list"
  wm_edges :: "nat \<Rightarrow> EdgePt list"
  wm_border :: "nat \<Rightarrow> (EdgeSide \<times> real) list"
  HDivDivSurface :: "nat \<Rightarrow> TensorBasis"

text \<open>
  The two terms of the linear form, for a test function \<open>tau\<close> given by its values at the
  integration points:
  \<^verbatim>\<open>
  nu = ng.specialcf.normal(3)
  t = ng.specialcf.tangential(3)
  mu = Cross(nu, t)
  f = LinearForm(liftWspace)
  f += InnerProduct(Grad(nu), tau) * ds
  f += (pi / 2 - acos(Normalize(nu_avg) * mu)) * tau[mu, mu] \
          * ds(element_boundary=True)
  \<close>
\<close>

definition wein_element_term :: "(nat \<Rightarrow> mat3) \<Rightarrow> SurfPt \<Rightarrow> real option" where
  "wein_element_term tau p =
     Some (InnerProduct (Grad_normal (sp_point p)) (tau (sp_id p)) * sp_weight p)"

definition wein_boundary_term :: "(nat \<Rightarrow> mat3) \<Rightarrow> WBndPt \<Rightarrow> real option" where
  "wein_boundary_term tau p =
     (let nu = es_normal (wb_side p);
          t = es_tangential (wb_side p);
          mu = Cross nu t
      in do { n \<leftarrow> Normalize (wb_nu_avg p);
              a \<leftarrow> cf_acos (vdot n mu);
              Some ((pi / 2 - a) * bilin (tau (es_id (wb_side p))) mu mu * wb_weight p) })"

definition wein_functional :: "WeingartenMesh \<Rightarrow> nat \<Rightarrow> (nat \<Rightarrow> mat3) \<Rightarrow> real option" where
  "wein_functional mesh lifting_order tau =
     do { a \<leftarrow> opt_sum (map (wein_element_term tau) (wm_ds mesh lifting_order));
          b \<leftarrow> opt_sum (map (wein_boundary_term tau)
                           (element_boundary (wm_edges mesh lifting_order)
                                             (wm_border mesh lifting_order)));
          Some (a + b) }"

text \<open>
  \<^verbatim>\<open>
  def GeneralizedWeingarten(mesh, lifting_order=curving_order-1):
      ...
      liftWspace = HDivDivSurface(mesh, order=lifting_order)
      sigma, tau = liftWspace.TnT()
      sigma, tau = sigma.Trace(), tau.Trace()
      ...
      a = BilinearForm(InnerProduct(sigma, tau) * ds, symmetric=True)
      liftW = GridFunction(liftWspace)
      with ng.TaskManager():
          a.Assemble()
          f.Assemble()
          liftW.vec.data = \
              a.mat.Inverse(liftWspace.FreeDofs(),
                            inverse="sparsecholesky") * f.vec
      return liftW
  \<close>
  The result is the coefficient vector of the returned GridFunction; the solver is a
  parameter, as before.
\<close>

definition wein_mass :: "WeingartenMesh \<Rightarrow> nat \<Rightarrow> dmat" where
  "wein_mass mesh lifting_order =
     (let S = HDivDivSurface mesh lifting_order
      in map (\<lambda>i. map (\<lambda>j. (\<Sum>p \<leftarrow> wm_ds mesh lifting_order.
                              InnerProduct (t_shape S j (sp_id p)) (t_shape S i (sp_id p))
                              * sp_weight p))
                        [0..<t_ndof S])
             [0..<t_ndof S])"

definition GeneralizedWeingarten ::
  "(dmat \<Rightarrow> bool list \<Rightarrow> dmat) \<Rightarrow> WeingartenMesh \<Rightarrow> nat \<Rightarrow> dvec option" where
  "GeneralizedWeingarten Inverse mesh lifting_order =
     (let liftWspace = HDivDivSurface mesh lifting_order
      in do { f \<leftarrow> all_some (map (\<lambda>i. wein_functional mesh lifting_order (t_shape liftWspace i))
                               [0..<t_ndof liftWspace]);
              let a = wein_mass mesh lifting_order;
              Some (mat_vec (Inverse a (t_FreeDofs liftWspace)) f) })"

subsection \<open>The functional as the specification writes it\<close>

text \<open>
  The specification's edge form: the sum over the elements of the integral of
  \<open>Grad nu : sigma\<close>, plus the sum over the edges of the integral of
  \<open>angle * (mu mu\<^sup>T : sigma)\<close>, where \<open>angle = acos (nu\<^sub>+ * nu\<^sub>-)\<close> is the angle between the
  normals of the two sides.  The co-normal and the test tensor are taken from the \<open>+\<close>
  side; the test tensors considered have the same \<open>sigma[mu, mu]\<close> on both sides.
\<close>

definition spec_edge_term :: "(nat \<Rightarrow> mat3) \<Rightarrow> EdgePt \<Rightarrow> real option" where
  "spec_edge_term sigma e =
     (let mu = Cross (es_normal (eg_plus e)) (es_tangential (eg_plus e))
      in do { angle \<leftarrow> cf_acos (vdot (es_normal (eg_plus e)) (es_normal (eg_minus e)));
              Some (angle * InnerProduct (OuterProduct mu mu) (sigma (es_id (eg_plus e)))
                    * eg_weight e) })"

definition spec_wein_functional ::
  "WeingartenMesh \<Rightarrow> nat \<Rightarrow> (nat \<Rightarrow> mat3) \<Rightarrow> real option" where
  "spec_wein_functional mesh lifting_order sigma =
     do { a \<leftarrow> opt_sum (map (wein_element_term sigma) (wm_ds mesh lifting_order));
          b \<leftarrow> opt_sum (map (spec_edge_term sigma) (wm_edges mesh lifting_order));
          Some (a + b) }"

text \<open>
  The same with a signed angle: positive where the outward co-normal makes an acute
  angle with the averaged normal (the surface bends away from the normal, as on a
  convex body with outward normal), negative where it makes an obtuse one.
\<close>

definition edge_sign :: "EdgePt \<Rightarrow> real" where
  "edge_sign e =
     (if 0 \<le> vdot (nu_avg e) (Cross (es_normal (eg_plus e)) (es_tangential (eg_plus e)))
      then 1 else - 1)"

definition signed_edge_term :: "(nat \<Rightarrow> mat3) \<Rightarrow> EdgePt \<Rightarrow> real option" where
  "signed_edge_term sigma e =
     (let mu = Cross (es_normal (eg_plus e)) (es_tangential (eg_plus e))
      in do { angle \<leftarrow> cf_acos (vdot (es_normal (eg_plus e)) (es_normal (eg_minus e)));
              Some (edge_sign e * angle
                    * InnerProduct (OuterProduct mu mu) (sigma (es_id (eg_plus e)))
                    * eg_weight e) })"

definition signed_wein_functional ::
  "WeingartenMesh \<Rightarrow> nat \<Rightarrow> (nat \<Rightarrow> mat3) \<Rightarrow> real option" where
  "signed_wein_functional mesh lifting_order sigma =
     do { a \<leftarrow> opt_sum (map (wein_element_term sigma) (wm_ds mesh lifting_order));
          b \<leftarrow> opt_sum (map (signed_edge_term sigma) (wm_edges mesh lifting_order));
          Some (a + b) }"

text \<open>
  Well-formed edge data: unit normals, a unit tangent orthogonal to both normals and
  reversed on the other side, and normals that are not opposite.
\<close>

definition edge_ok :: "EdgePt \<Rightarrow> bool" where
  "edge_ok e \<longleftrightarrow>
     vdot (es_normal (eg_plus e)) (es_normal (eg_plus e)) = 1
     \<and> vdot (es_normal (eg_minus e)) (es_normal (eg_minus e)) = 1
     \<and> vdot (es_tangential (eg_plus e)) (es_tangential (eg_plus e)) = 1
     \<and> es_tangential (eg_minus e) = vec_neg (es_tangential (eg_plus e))
     \<and> vdot (es_normal (eg_plus e)) (es_tangential (eg_plus e)) = 0
     \<and> vdot (es_normal (eg_minus e)) (es_tangential (eg_plus e)) = 0
     \<and> vdot (es_normal (eg_plus e)) (es_normal (eg_minus e)) \<noteq> - 1"

definition border_ok :: "EdgeSide \<times> real \<Rightarrow> bool" where
  "border_ok b \<longleftrightarrow> vdot (es_normal (fst b)) (es_normal (fst b)) = 1"

text \<open>A test tensor with the same normal-normal component on both sides of an edge.\<close>

definition nn_continuous :: "(nat \<Rightarrow> mat3) \<Rightarrow> EdgePt \<Rightarrow> bool" where
  "nn_continuous sigma e \<longleftrightarrow>
     bilin (sigma (es_id (eg_plus e)))
       (Cross (es_normal (eg_plus e)) (es_tangential (eg_plus e)))
       (Cross (es_normal (eg_plus e)) (es_tangential (eg_plus e)))
     = bilin (sigma (es_id (eg_minus e)))
       (Cross (es_normal (eg_minus e)) (es_tangential (eg_minus e)))
       (Cross (es_normal (eg_minus e)) (es_tangential (eg_minus e)))"

definition symmetric3 :: "mat3 \<Rightarrow> bool" where
  "symmetric3 A \<longleftrightarrow>
     (case A of ((a00, a01, a02), (a10, a11, a12), (a20, a21, a22)) \<Rightarrow>
        a01 = a10 \<and> a02 = a20 \<and> a12 = a21)"

text \<open>
  Test data.  Two unit squares meeting at a right angle along the z axis, seen from
  inside the corner: the element \<open>T+\<close> in the plane \<open>x = 0\<close> on the side \<open>y \<ge> 0\<close> with normal
  \<open>(1, 0, 0)\<close>, the element \<open>T-\<close> in the plane \<open>y = 0\<close> on the side \<open>x \<ge> 0\<close> with normal
  \<open>(0, 1, 0)\<close>; a reentrant edge, as on the surface of an L-shaped block.  One
  integration point of weight 1 on each edge and in each element; along the boundary
  of each element the tangent turns so that \<open>Cross nu t\<close> points out of the element.
  The test tensor is the identity matrix everywhere.
\<close>

definition reentrant_edge :: EdgePt where
  "reentrant_edge =
     \<lparr> eg_weight = 1,
       eg_plus = \<lparr> es_id = 0, es_normal = (1, 0, 0), es_tangential = (0, 0, 1) \<rparr>,
       eg_minus = \<lparr> es_id = 1, es_normal = (0, 1, 0), es_tangential = (0, 0, - 1) \<rparr> \<rparr>"

definition identity3 :: mat3 where
  "identity3 = ((1, 0, 0), (0, 1, 0), (0, 0, 1))"

definition empty_tensor_basis :: TensorBasis where
  "empty_tensor_basis = \<lparr> t_ndof = 0, t_shape = (\<lambda>i p. zero_mat3), t_FreeDofs = [] \<rparr>"

definition flat_point :: "nat \<Rightarrow> vec3 \<Rightarrow> SurfPt" where
  "flat_point i n =
     \<lparr> sp_id = i, sp_weight = 1, sp_point = \<lparr> normal = n, Grad_normal = zero_mat3 \<rparr> \<rparr>"

definition reentrant_mesh :: WeingartenMesh where
  "reentrant_mesh =
     \<lparr> nv = 6, nedge = 7, nface = 2,
       wm_ds = (\<lambda>k. [flat_point 2 (1, 0, 0), flat_point 3 (0, 1, 0)]),
       wm_edges = (\<lambda>k. [reentrant_edge]),
       wm_border = (\<lambda>k.
         [(\<lparr> es_id = 4, es_normal = (1, 0, 0), es_tangential = (0, 1, 0) \<rparr>, 1),
          (\<lparr> es_id = 5, es_normal = (1, 0, 0), es_tangential = (0, 0, - 1) \<rparr>, 1),
          (\<lparr> es_id = 6, es_normal = (1, 0, 0), es_tangential = (0, - 1, 0) \<rparr>, 1),
          (\<lparr> es_id = 7, es_normal = (0, 1, 0), es_tangential = (1, 0, 0) \<rparr>, 1),
          (\<lparr> es_id = 8, es_normal = (0, 1, 0), es_tangential = (0, 0, 1) \<rparr>, 1),
          (\<lparr> es_id = 9, es_normal = (0, 1, 0), es_tangential = (- 1, 0, 0) \<rparr>, 1)]),
       HDivDivSurface = (\<lambda>k. empty_tensor_basis) \<rparr>"

text \<open>
  The same two planes seen from outside the corner, as at an edge of a cube: \<open>T+\<close> on
  the side \<open>y \<le> 0\<close>, \<open>T-\<close> on the side \<open>x \<le> 0\<close>.
\<close>

definition ridge_edge :: EdgePt where
  "ridge_edge =
     \<lparr> eg_weight = 1,
       eg_plus = \<lparr> es_id = 0, es_normal = (1, 0, 0), es_tangential = (0, 0, - 1) \<rparr>,
       eg_minus = \<lparr> es_id = 1, es_normal = (0, 1, 0), es_tangential = (0, 0, 1) \<rparr> \<rparr>"

definition ridge_mesh :: WeingartenMesh where
  "ridge_mesh =
     \<lparr> nv = 6, nedge = 7, nface = 2,
       wm_ds = (\<lambda>k. [flat_point 2 (1, 0, 0), flat_point 3 (0, 1, 0)]),
       wm_edges = (\<lambda>k. [ridge_edge]),
       wm_border = (\<lambda>k.
         [(\<lparr> es_id = 4, es_normal = (1, 0, 0), es_tangential = (0, - 1, 0) \<rparr>, 1),
          (\<lparr> es_id = 5, es_normal = (1, 0, 0), es_tangential = (0, 0, 1) \<rparr>, 1),
          (\<lparr> es_id = 6, es_normal = (1, 0, 0), es_tangential = (0, 1, 0) \<rparr>, 1),
          (\<lparr> es_id = 7, es_normal = (0, 1, 0), es_tangential = (- 1, 0, 0) \<rparr>, 1),
          (\<lparr> es_id = 8, es_normal = (0, 1, 0), es_tangential = (0, 0, - 1) \<rparr>, 1),
          (\<lparr> es_id = 9, es_normal = (0, 1, 0), es_tangential = (1, 0, 0) \<rparr>, 1)]),
       HDivDivSurface = (\<lambda>k. empty_tensor_basis) \<rparr>"

section \<open>Intrinsic curvature from a metric\<close>

text \<open>Vectors and matrices in the flat parameter domain.\<close>

type_synonym vec2 = "real \<times> real"
type_synonym mat2 = "vec2 \<times> vec2"

fun vdot2 :: "vec2 \<Rightarrow> vec2 \<Rightarrow> real" where
  "vdot2 (a0, a1) (b0, b1) = a0 * b0 + a1 * b1"

fun mat_apply2 :: "mat2 \<Rightarrow> vec2 \<Rightarrow> vec2" where
  "mat_apply2 (r0, r1) a = (vdot2 r0 a, vdot2 r1 a)"

fun vec_neg2 :: "vec2 \<Rightarrow> vec2" where
  "vec_neg2 (a0, a1) = (- a0, - a1)"

fun Det2 :: "mat2 \<Rightarrow> real" where
  "Det2 ((a00, a01), (a10, a11)) = a00 * a11 - a01 * a10"

fun vnth2 :: "vec2 \<Rightarrow> nat \<Rightarrow> real" where
  "vnth2 (a0, a1) i = (if i = 0 then a0 else a1)"

text \<open>
  \<open>G[a, b, c]\<close> for a tensor \<open>G\<close> with three indices and three vectors: the tensor
  contracted with the vectors.
\<close>

definition contract3 :: "(nat \<Rightarrow> nat \<Rightarrow> nat \<Rightarrow> real) \<Rightarrow> vec2 \<Rightarrow> vec2 \<Rightarrow> vec2 \<Rightarrow> real" where
  "contract3 G a b c = (\<Sum>i<2. \<Sum>j<2. \<Sum>k<2. G i j k * vnth2 a i * vnth2 b j * vnth2 c k)"

text \<open>
  The metric GridFunction \<open>gh\<close> as the notebooks read it: its value at an integration
  point and the values there of the two operators of the library that differentiate
  it, \<open>gh.Operator("christoffel2")\<close> and \<open>gh.Operator("Riemann")\<close>.  Nothing else of the
  surface is in it: no embedding and no normal.
\<close>

record MetricGF =
  gf :: "nat \<Rightarrow> mat2"
  Operator_christoffel2 :: "nat \<Rightarrow> nat \<Rightarrow> nat \<Rightarrow> nat \<Rightarrow> real"
  Operator_Riemann :: "nat \<Rightarrow> nat \<Rightarrow> nat \<Rightarrow> nat \<Rightarrow> nat \<Rightarrow> real"

text \<open>
  Integration points of a mesh of the parameter domain: inside an element (identifier
  and weight), on the boundary of an element (with \<open>tangential(2)\<close>, \<open>normal(2)\<close> and
  \<open>EdgeCurvature(2)\<close>), and at a vertex of an element (with the two columns of
  \<open>VertexTangentialVectors(2)\<close>).
\<close>

record PElemPt =
  pe_id :: nat
  pe_weight :: real

record PBndPt =
  pb_id :: nat
  pb_weight :: real
  pb_tangential :: vec2
  pb_normal :: vec2
  pb_EdgeCurvature :: vec2

record PVtxPt =
  pv_id :: nat
  pv_vertex :: nat
  pv_vt1 :: vec2
  pv_vt2 :: vec2

record ParamMesh = MeshCounts +
  pm_lf_dx :: "nat \<Rightarrow> PElemPt list"
  pm_lf_dx_boundary :: "nat \<Rightarrow> PBndPt list"
  pm_lf_dx_bbnd :: "PVtxPt list"
  pm_bf_dx :: "nat \<Rightarrow> PElemPt list"
  pm_lagrange :: "nat \<Rightarrow> Basis"

text \<open>
  The notebook cell
  \<^verbatim>\<open>
  R = gh.Operator("Riemann")
  Kh = R[0,1,1,0]/Det(gh)
  \<close>
  reads the variable \<open>gh\<close> of the notebook.  The variables the notebook holds at that
  cell: the hemisphere as a surface mesh in space, the mesh of its parameter domain,
  the displacement \<open>u\<close> of the embedding (its value at each point), and the metric
  \<open>gh\<close>.
\<close>

record Notebook =
  nb_hemisph_mesh :: SurfaceMesh
  nb_param_mesh :: ParamMesh
  nb_u :: "nat \<Rightarrow> vec3"
  nb_gh :: MetricGF

definition cell_Kh :: "Notebook \<Rightarrow> nat \<Rightarrow> real option" where
  "cell_Kh s =
     (let gh = nb_gh s;
          R = Operator_Riemann gh;
          Kh = (\<lambda>p. cf_div (R p 0 1 1 0) (Det2 (gf gh p)))
      in Kh)"

subsection \<open>The generalized Gauss curvature, intrinsic form\<close>

text \<open>
  \<^verbatim>\<open>
  t = ng.specialcf.tangential(2)      # tangential vector at element edges
  n = -ng.specialcf.normal(2)         # normal vector at element edges
  bbnd_tang = ng.specialcf.VertexTangentialVectors(2) # tangent on edges into a vertex
  vt1 = bbnd_tang[:, 0]
  vt2 = bbnd_tang[:, 1]

  angldeficit = acos(vt1*vt2 / sqrt(vt1*vt1) / sqrt(vt2*vt2)) - \
                acos(gh*vt1*vt2 / sqrt(gh*vt1*vt1) / sqrt(gh*vt2*vt2))
  edgecurv = ng.specialcf.EdgeCurvature(2)  # nabla_t t
  geodesicurv = sqrt(Det(gh)) / (t * (gh * t)) * \
                (edgecurv * n + gh.Operator("christoffel2")[t, t, n])
  elementcurv= 1 / sqrt(Det(gh)) * gh.Operator("Riemann")[0, 1, 1, 0]
  \<close>
\<close>

definition angldeficit :: "MetricGF \<Rightarrow> PVtxPt \<Rightarrow> real option" where
  "angldeficit gh p =
     (let vt1 = pv_vt1 p; vt2 = pv_vt2 p; g = gf gh (pv_id p)
      in do { n1 \<leftarrow> cf_sqrt (vdot2 vt1 vt1);
              n2 \<leftarrow> cf_sqrt (vdot2 vt2 vt2);
              q1 \<leftarrow> cf_div (vdot2 vt1 vt2) n1;
              q2 \<leftarrow> cf_div q1 n2;
              a \<leftarrow> cf_acos q2;
              m1 \<leftarrow> cf_sqrt (vdot2 (mat_apply2 g vt1) vt1);
              m2 \<leftarrow> cf_sqrt (vdot2 (mat_apply2 g vt2) vt2);
              r1 \<leftarrow> cf_div (vdot2 (mat_apply2 g vt1) vt2) m1;
              r2 \<leftarrow> cf_div r1 m2;
              b \<leftarrow> cf_acos r2;
              Some (a - b) })"

definition geodesicurv :: "MetricGF \<Rightarrow> PBndPt \<Rightarrow> real option" where
  "geodesicurv gh p =
     (let t = pb_tangential p; n = vec_neg2 (pb_normal p);
          edgecurv = pb_EdgeCurvature p; g = gf gh (pb_id p)
      in do { s \<leftarrow> cf_sqrt (Det2 g);
              q \<leftarrow> cf_div s (vdot2 t (mat_apply2 g t));
              Some (q * (vdot2 edgecurv n
                         + contract3 (Operator_christoffel2 gh (pb_id p)) t t n)) })"

definition elementcurv :: "MetricGF \<Rightarrow> PElemPt \<Rightarrow> real option" where
  "elementcurv gh p =
     do { s \<leftarrow> cf_sqrt (Det2 (gf gh (pe_id p)));
          q \<leftarrow> cf_div 1 s;
          Some (q * Operator_Riemann gh (pe_id p) 0 1 1 0) }"

text \<open>
  The three terms of the linear form, for the test function \<open>v\<close> that is basis function
  \<open>i\<close>:
  \<^verbatim>\<open>
  f = LinearForm(V)
  f += v * angldeficit * dx(element_vb=ng.BBND)
  f += v * geodesicurv * dx(element_boundary=True)
  f += v * elementcurv * dx
  \<close>
\<close>

definition int_vertex_term :: "Basis \<Rightarrow> MetricGF \<Rightarrow> nat \<Rightarrow> PVtxPt \<Rightarrow> real option" where
  "int_vertex_term V gh i p = do { a \<leftarrow> angldeficit gh p; Some (shape V i (pv_id p) * a) }"

definition int_edge_term :: "Basis \<Rightarrow> MetricGF \<Rightarrow> nat \<Rightarrow> PBndPt \<Rightarrow> real option" where
  "int_edge_term V gh i p =
     do { k \<leftarrow> geodesicurv gh p; Some (shape V i (pb_id p) * k * pb_weight p) }"

definition int_element_term :: "Basis \<Rightarrow> MetricGF \<Rightarrow> nat \<Rightarrow> PElemPt \<Rightarrow> real option" where
  "int_element_term V gh i p =
     do { k \<leftarrow> elementcurv gh p; Some (shape V i (pe_id p) * k * pe_weight p) }"

definition int_load_entry :: "ParamMesh \<Rightarrow> MetricGF \<Rightarrow> nat \<Rightarrow> nat \<Rightarrow> real option" where
  "int_load_entry mesh gh lift_order i =
     (let V = pm_lagrange mesh lift_order
      in do { a \<leftarrow> opt_sum (map (int_vertex_term V gh i) (pm_lf_dx_bbnd mesh));
              b \<leftarrow> opt_sum (map (int_edge_term V gh i) (pm_lf_dx_boundary mesh lift_order));
              c \<leftarrow> opt_sum (map (int_element_term V gh i) (pm_lf_dx mesh lift_order));
              Some (a + b + c) })"

definition int_load_vector :: "ParamMesh \<Rightarrow> MetricGF \<Rightarrow> nat \<Rightarrow> dvec option" where
  "int_load_vector mesh gh lift_order =
     all_some (map (int_load_entry mesh gh lift_order)
                   [0..<ndof (pm_lagrange mesh lift_order)])"

text \<open>\<open>M = BilinearForm(sqrt(Det(gh)) * u * v * dx)\<close>\<close>

definition int_mass_term :: "Basis \<Rightarrow> MetricGF \<Rightarrow> nat \<Rightarrow> nat \<Rightarrow> PElemPt \<Rightarrow> real option" where
  "int_mass_term V gh i j p =
     do { s \<leftarrow> cf_sqrt (Det2 (gf gh (pe_id p)));
          Some (s * shape V j (pe_id p) * shape V i (pe_id p) * pe_weight p) }"

definition int_mass :: "ParamMesh \<Rightarrow> MetricGF \<Rightarrow> nat \<Rightarrow> dmat option" where
  "int_mass mesh gh lift_order =
     (let V = pm_lagrange mesh lift_order
      in all_some (map (\<lambda>i. all_some (map (\<lambda>j. opt_sum (map (int_mass_term V gh i j)
                                                             (pm_bf_dx mesh lift_order)))
                                           [0..<ndof V]))
                       [0..<ndof V]))"

text \<open>
  \<^verbatim>\<open>
  def GeneralizedGaussCurvature(parameter_domain_mesh, gh, lift_order):
      ...
      V = ng.H1(parameter_domain_mesh, order=lift_order, dirichlet=".*")
      u, v = V.TnT()
      ...
      liftK = GridFunction(V)   # lifted Gauss curvature
      with ng.TaskManager():
          M = BilinearForm(sqrt(Det(gh)) * u * v * dx)
          M.Assemble()
          f.Assemble()
          liftK.vec.data = M.mat.Inverse(V.FreeDofs()) * f.vec
      return liftK
  \<close>
  The result is the coefficient vector of the returned GridFunction; the solver of the
  library is the parameter \<open>Inverse\<close>.
\<close>

definition GeneralizedGaussCurvature ::
  "(dmat \<Rightarrow> bool list \<Rightarrow> dmat) \<Rightarrow> ParamMesh \<Rightarrow> MetricGF \<Rightarrow> nat \<Rightarrow> dvec option" where
  "GeneralizedGaussCurvature Inverse parameter_domain_mesh gh lift_order =
     (let V = H1 (pm_lagrange parameter_domain_mesh lift_order) True
      in do { M \<leftarrow> int_mass parameter_domain_mesh gh lift_order;
              f \<leftarrow> int_load_vector parameter_domain_mesh gh lift_order;
              Some (mat_vec (Inverse M (FreeDofs V)) f) })"

text \<open>
  What the solver promises.  \<open>A\<close> is the matrix of \<open>M.Inverse(free)\<close> when \<open>A\<close> vanishes in
  the rows and columns of the degrees of freedom that are not free, and is the inverse
  of \<open>M\<close> on the free ones.
\<close>

definition inverse_on :: "dmat \<Rightarrow> bool list \<Rightarrow> dmat \<Rightarrow> bool" where
  "inverse_on M free A \<longleftrightarrow>
     length A = length M \<and> length free = length M
     \<and> (\<forall>i < length M. length (A ! i) = length M \<and> length (M ! i) = length M)
     \<and> (\<forall>i < length M. \<forall>k < length M.
           \<not> (free ! i \<and> free ! k) \<longrightarrow> A ! i ! k = 0)
     \<and> (\<forall>i < length M. \<forall>k < length M.
           free ! i \<and> free ! k \<longrightarrow>
             (\<Sum>j < length M. M ! i ! j * A ! j ! k) = (if i = k then 1 else 0))"

text \<open>
  The residual of the lifting equation for basis function \<open>i\<close>: the integral of the
  lifted curvature against that function in the metric, minus the value of the
  functional on it.
\<close>

definition lifting_residual ::
  "(dmat \<Rightarrow> bool list \<Rightarrow> dmat) \<Rightarrow> ParamMesh \<Rightarrow> MetricGF \<Rightarrow> nat \<Rightarrow> nat \<Rightarrow> real option" where
  "lifting_residual Inverse mesh gh lift_order i =
     do { M \<leftarrow> int_mass mesh gh lift_order;
          f \<leftarrow> int_load_vector mesh gh lift_order;
          liftK \<leftarrow> GeneralizedGaussCurvature Inverse mesh gh lift_order;
          Some (mat_vec M liftK ! i - f ! i) }"

subsection \<open>The angle deficit as the specification writes it\<close>




subsection \<open>The geodesic curvature as the notebook writes it\<close>








subsection \<open>Test data: eight triangles around a vertex\<close>

text \<open>
  The structured triangular mesh of the square \<open>[0, 2] \<times> [0, 2]\<close> that
  \<open>MakeStructured2DMesh(quads=False, nx=2, ny=2)\<close> makes, as the notebook's example does
  with \<open>nx=8, ny=8\<close>: four unit squares, each cut into two triangles by the diagonal
  from its lower right to its upper left corner.  Vertex \<open>v\<close> (0 to 8) is the point
  \<open>(v mod 3, v div 3)\<close>; only vertex 4, the centre, is not on the boundary.  Square \<open>q\<close>
  (0 to 3) has the lower left corner \<open>(q mod 2, q div 2)\<close>; triangle \<open>2 q\<close> is its lower
  left half, with the vertices (lower left, lower right, upper left), and triangle
  \<open>2 q + 1\<close> its upper right half, with the vertices (upper left, lower right, upper
  right).  Triangle \<open>t\<close> carries six points, numbered \<open>6 t + l\<close>: its vertices (\<open>l\<close> from
  0 to 2) and the midpoints of its edges (\<open>l = 3 + e\<close> for the edge opposite to vertex
  \<open>e\<close>).  Integrals over a triangle use the three midpoints with equal weights, which
  is exact for products of two linear functions; integrals over the boundary of a
  triangle use the midpoint of each edge.
\<close>

definition tri_x :: "nat \<Rightarrow> real" where
  "tri_x p = real ((p div 12) mod 2) + real ([0, 2, 0, 1, 0, 1, 0, 2, 2, 2, 1, 1] ! (p mod 12)) / 2"

definition tri_y :: "nat \<Rightarrow> real" where
  "tri_y p = real ((p div 12) div 2) + real ([0, 0, 2, 1, 1, 0, 2, 0, 2, 1, 2, 1] ! (p mod 12)) / 2"

text \<open>
  The piecewise linear function of this triangulation that is one at the origin and
  zero at every other vertex, and the basis function of vertex \<open>i\<close>.
\<close>

definition hat :: "real \<Rightarrow> real \<Rightarrow> real" where
  "hat s r = max 0 (1 - max (max \<bar>s\<bar> \<bar>r\<bar>) \<bar>s + r\<bar>)"

definition tri_shape :: "nat \<Rightarrow> nat \<Rightarrow> real" where
  "tri_shape i p = hat (tri_x p - real (i mod 3)) (tri_y p - real (i div 3))"

definition tri_elem_pt :: "nat \<Rightarrow> PElemPt" where
  "tri_elem_pt p = \<lparr> pe_id = p, pe_weight = 1 / 6 \<rparr>"

definition tri_elem_pts :: "PElemPt list" where
  "tri_elem_pts = concat (map (\<lambda>t. map (\<lambda>e. tri_elem_pt (6 * t + 3 + e)) [0, 1, 2]) [0..<8])"

definition tri_basis :: Basis where
  "tri_basis = \<lparr> ndof = 9, shape = tri_shape, on_boundary = (\<lambda>i. i \<noteq> 4) \<rparr>"

text \<open>
  The three edges of triangle \<open>t\<close>, each with its length as weight, the unit tangent
  along the edge (counterclockwise around the triangle) and the outward unit normal;
  the edges are straight.
\<close>

definition tri_edge_pts :: "nat \<Rightarrow> PBndPt list" where
  "tri_edge_pts t =
     (if t mod 2 = 0
      then [\<lparr> pb_id = 6 * t + 3, pb_weight = sqrt 2,
              pb_tangential = (- (sqrt 2 / 2), sqrt 2 / 2), pb_normal = (sqrt 2 / 2, sqrt 2 / 2),
              pb_EdgeCurvature = (0, 0) \<rparr>,
            \<lparr> pb_id = 6 * t + 4, pb_weight = 1,
              pb_tangential = (0, - 1), pb_normal = (- 1, 0), pb_EdgeCurvature = (0, 0) \<rparr>,
            \<lparr> pb_id = 6 * t + 5, pb_weight = 1,
              pb_tangential = (1, 0), pb_normal = (0, - 1), pb_EdgeCurvature = (0, 0) \<rparr>]
      else [\<lparr> pb_id = 6 * t + 3, pb_weight = 1,
              pb_tangential = (0, 1), pb_normal = (1, 0), pb_EdgeCurvature = (0, 0) \<rparr>,
            \<lparr> pb_id = 6 * t + 4, pb_weight = 1,
              pb_tangential = (- 1, 0), pb_normal = (0, 1), pb_EdgeCurvature = (0, 0) \<rparr>,
            \<lparr> pb_id = 6 * t + 5, pb_weight = sqrt 2,
              pb_tangential = (sqrt 2 / 2, - (sqrt 2 / 2)),
              pb_normal = (- (sqrt 2 / 2), - (sqrt 2 / 2)),
              pb_EdgeCurvature = (0, 0) \<rparr>])"

text \<open>
  The three vertices of triangle \<open>t\<close>, with the mesh vertex each one is and the unit
  tangents of the two edges of the triangle that leave it.
\<close>

definition tri_corner_pts :: "nat \<Rightarrow> PVtxPt list" where
  "tri_corner_pts t =
     (let a = (t div 2) mod 2; b = (t div 2) div 2
      in if t mod 2 = 0
         then [\<lparr> pv_id = 6 * t, pv_vertex = 3 * b + a,
                 pv_vt1 = (1, 0), pv_vt2 = (0, 1) \<rparr>,
               \<lparr> pv_id = 6 * t + 1, pv_vertex = 3 * b + a + 1,
                 pv_vt1 = (- (sqrt 2 / 2), sqrt 2 / 2), pv_vt2 = (- 1, 0) \<rparr>,
               \<lparr> pv_id = 6 * t + 2, pv_vertex = 3 * b + a + 3,
                 pv_vt1 = (0, - 1), pv_vt2 = (sqrt 2 / 2, - (sqrt 2 / 2)) \<rparr>]
         else [\<lparr> pv_id = 6 * t, pv_vertex = 3 * b + a + 3,
                 pv_vt1 = (sqrt 2 / 2, - (sqrt 2 / 2)), pv_vt2 = (1, 0) \<rparr>,
               \<lparr> pv_id = 6 * t + 1, pv_vertex = 3 * b + a + 1,
                 pv_vt1 = (0, 1), pv_vt2 = (- (sqrt 2 / 2), sqrt 2 / 2) \<rparr>,
               \<lparr> pv_id = 6 * t + 2, pv_vertex = 3 * b + a + 4,
                 pv_vt1 = (- 1, 0), pv_vt2 = (0, - 1) \<rparr>])"

definition tri_mesh :: ParamMesh where
  "tri_mesh =
     \<lparr> nv = 9, nedge = 16, nface = 8,
       pm_lf_dx = (\<lambda>k. tri_elem_pts),
       pm_lf_dx_boundary = (\<lambda>k. concat (map tri_edge_pts [0, 1, 2, 3, 4, 5, 6, 7])),
       pm_lf_dx_bbnd = concat (map tri_corner_pts [0, 1, 2, 3, 4, 5, 6, 7]),
       pm_bf_dx = (\<lambda>k. tri_elem_pts),
       pm_lagrange = (\<lambda>k. tri_basis) \<rparr>"

text \<open>
  A metric that is constant on each triangle: \<open>((2, 1), (1, 2))\<close> on the triangles of
  the squares 0 and 3, \<open>((2, - 1), (- 1, 2))\<close> on those of the squares 1 and 2.  Along
  every edge both sides measure the same length, so this is a metric of the lowest
  order Regge space; within a triangle the metric is flat, so the Christoffel symbols
  and the Riemann tensor vanish.  In this metric the angles at the centre vertex add
  up to \<open>4 pi / 3\<close>.
\<close>

definition tri_gh :: MetricGF where
  "tri_gh =
     \<lparr> gf = (\<lambda>p. let s = (if p div 12 = 0 \<or> p div 12 = 3 then 1 else - 1) in ((2, s), (s, 2))),
       Operator_christoffel2 = (\<lambda>p i j k. 0),
       Operator_Riemann = (\<lambda>p i j k l. 0) \<rparr>"

text \<open>
  A solver for a system with one free degree of freedom: the inverse of the one free
  diagonal entry, and zero elsewhere.
\<close>

definition one_dof_Inverse :: "dmat \<Rightarrow> bool list \<Rightarrow> dmat" where
  "one_dof_Inverse M free =
     map (\<lambda>i. map (\<lambda>k. if free ! i \<and> free ! k then 1 / M ! i ! k else 0) [0..<length M])
         [0..<length M]"

text \<open>
  The mass matrix of this mesh in this metric (the exact integrals of the products of
  the basis functions, times the area factor \<open>sqrt 3\<close>) and its load vector.
\<close>

definition tri_mass_entry :: "nat \<Rightarrow> nat \<Rightarrow> real" where
  "tri_mass_entry i j =
     (\<Sum>p\<leftarrow>tri_elem_pts. sqrt 3 * tri_shape j (pe_id p) * tri_shape i (pe_id p) * pe_weight p)"

definition tri_mass :: dmat where
  "tri_mass = map (\<lambda>i. map (tri_mass_entry i) [0..<9]) [0..<9]"

definition tri_load :: dvec where
  "tri_load =
     [pi / 6, - pi / 3, pi / 6, - pi / 3, 2 * pi / 3, - pi / 3, pi / 6, - pi / 3, pi / 6]"

text \<open>
  Two states of the notebook with the same metric and different embeddings: the metric
  of the unit hemisphere at its pole, where \<open>g = (pi / 2)\<^sup>2 I\<close> and
  \<open>R\<^sub>0\<^sub>1\<^sub>1\<^sub>0 = (pi / 2)\<^sup>4\<close>, once with the displacement of the hemisphere, once with
  no displacement at all.
\<close>

definition pole_gh :: MetricGF where
  "pole_gh =
     \<lparr> gf = (\<lambda>p. ((pi\<^sup>2 / 4, 0), (0, pi\<^sup>2 / 4))),
       Operator_christoffel2 = (\<lambda>p i j k. 0),
       Operator_Riemann = (\<lambda>p i j k l. if (i, j, k, l) = (0, 1, 1, 0) \<or> (i, j, k, l) = (1, 0, 0, 1)
                                        then pi ^ 4 / 16
                                        else if (i, j, k, l) = (0, 1, 0, 1) \<or> (i, j, k, l) = (1, 0, 1, 0)
                                        then - (pi ^ 4 / 16) else 0) \<rparr>"

definition hemisphere_notebook :: Notebook where
  "hemisphere_notebook =
     \<lparr> nb_hemisph_mesh = cube_mesh mixed_diag, nb_param_mesh = tri_mesh,
       nb_u = (\<lambda>p. (0, 0, 1)), nb_gh = pole_gh \<rparr>"

definition flat_notebook :: Notebook where
  "flat_notebook =
     \<lparr> nb_hemisph_mesh = cube_mesh mixed_diag, nb_param_mesh = tri_mesh,
       nb_u = (\<lambda>p. (0, 0, 0)), nb_gh = pole_gh \<rparr>"

section \<open>Sums and vectors of values that may not be finite\<close>

lemma opt_sum_Some: "opt_sum (map (\<lambda>p. Some (g p)) ps) = Some (\<Sum>p\<leftarrow>ps. g p)"
  by (induction ps) simp_all

lemma opt_sum_zero:
  assumes "list_all (\<lambda>p. t p = Some 0) ps"
  shows "opt_sum (map t ps) = Some 0"
  using assms by (induction ps) simp_all

lemma all_some_map:
  assumes "\<And>i. i \<in> set xs \<Longrightarrow> g i = Some (h i)"
  shows "all_some (map g xs) = Some (map h xs)"
  using assms by (induction xs) simp_all

lemma opt_sum_append:
  "opt_sum (xs @ ys) = do { a \<leftarrow> opt_sum xs; b \<leftarrow> opt_sum ys; Some (a + b) }"
proof (induction xs)
  case Nil
  show ?case by (cases "opt_sum ys") simp_all
next
  case (Cons x xs)
  show ?case
    by (cases x; cases "opt_sum xs"; cases "opt_sum ys") (simp_all add: Cons.IH)
qed

lemma length_mat_vec: "length (mat_vec A x) = length A"
  by (simp add: mat_vec_def)

lemma mat_vec_nth:
  "i < length A \<Longrightarrow> mat_vec A x ! i = (\<Sum>j < length x. A ! i ! j * x ! j)"
  by (simp add: mat_vec_def)

lemma all_some_length:
  "all_some xs = Some ys \<Longrightarrow> length ys = length xs"
proof (induction xs arbitrary: ys)
  case Nil
  then show ?case by simp
next
  case (Cons x xs)
  then show ?case
    by (cases x; cases "all_some xs") auto
qed



section \<open>Properties of the extrinsic curvature evaluator\<close>

lemma ret_simps:
  "ret_H (ExtrinsicCurvatureSmooth mesh) p = 0.5 * Trace (Grad_normal p)"
  "ret_K (ExtrinsicCurvatureSmooth mesh) p =
     Det (mat_add (Grad_normal p) (OuterProduct (normal p) (normal p)))"
  "ret_k1 (ExtrinsicCurvatureSmooth mesh) p =
     map_option (\<lambda>s. ret_H (ExtrinsicCurvatureSmooth mesh) p + s)
       (cf_sqrt ((ret_H (ExtrinsicCurvatureSmooth mesh) p)\<^sup>2 - ret_K (ExtrinsicCurvatureSmooth mesh) p))"
  "ret_k2 (ExtrinsicCurvatureSmooth mesh) p =
     map_option (\<lambda>s. ret_H (ExtrinsicCurvatureSmooth mesh) p - s)
       (cf_sqrt ((ret_H (ExtrinsicCurvatureSmooth mesh) p)\<^sup>2 - ret_K (ExtrinsicCurvatureSmooth mesh) p))"
  by (simp_all add: ExtrinsicCurvatureSmooth_def ret_H_def ret_K_def ret_k1_def ret_k2_def Let_def)

text \<open>
  C3.  At every point of a surface mesh, with \<open>nu\<close> the normal there and \<open>W\<close> the
  surface gradient of \<open>nu\<close>, the four fields that \<open>ExtrinsicCurvatureSmooth\<close> returns
  are, in this order, the mean curvature \<open>H = Trace W / 2\<close>, the Gauss curvature
  \<open>K = Det (W + nu nu\<^sup>T)\<close> (the value of \<open>GaussCurvature\<close>), and the principal
  curvatures \<open>k1 = H + sqrt (H\<^sup>2 - K)\<close> and \<open>k2 = H - sqrt (H\<^sup>2 - K)\<close>, with the
  library's square root.
\<close>

theorem ExtrinsicCurvatureSmooth_fields:
  "ret_H (ExtrinsicCurvatureSmooth mesh) p = Trace (Grad_normal p) / 2
   \<and> ret_K (ExtrinsicCurvatureSmooth mesh) p
       = Det (mat_add (Grad_normal p) (OuterProduct (normal p) (normal p)))
   \<and> ret_K (ExtrinsicCurvatureSmooth mesh) p = GaussCurvature p
   \<and> ret_k1 (ExtrinsicCurvatureSmooth mesh) p
       = map_option (\<lambda>s. ret_H (ExtrinsicCurvatureSmooth mesh) p + s)
           (cf_sqrt ((ret_H (ExtrinsicCurvatureSmooth mesh) p)\<^sup>2
                      - ret_K (ExtrinsicCurvatureSmooth mesh) p))
   \<and> ret_k2 (ExtrinsicCurvatureSmooth mesh) p
       = map_option (\<lambda>s. ret_H (ExtrinsicCurvatureSmooth mesh) p - s)
           (cf_sqrt ((ret_H (ExtrinsicCurvatureSmooth mesh) p)\<^sup>2
                      - ret_K (ExtrinsicCurvatureSmooth mesh) p))"
  by (simp add: ret_simps GaussCurvature_def)

subsection \<open>Flat regions\<close>

lemma Det_OuterProduct_self: "Det (mat_add zero_mat3 (OuterProduct nu nu)) = 0"
proof -
  obtain a b c where nu: "nu = (a, b, c)" by (cases nu) auto
  show ?thesis unfolding nu zero_mat3_def by (simp add: algebra_simps)
qed

text \<open>
  C8.  Wherever the Weingarten tensor vanishes, the Gauss curvature formula
  \<open>Det (W + nu nu\<^sup>T)\<close> of \<open>GaussCurvature\<close> is exactly zero, whatever the normal is
  (a unit normal in particular); the function is one closed formula, and the flat case
  is not treated apart.
\<close>

theorem GaussCurvature_flat:
  "GaussCurvature \<lparr> normal = nu, Grad_normal = zero_mat3 \<rparr> = 0"
  by (simp add: GaussCurvature_def Det_OuterProduct_self)

subsection \<open>The principal curvatures as roots of a quadratic\<close>

lemma quadratic_roots:
  fixes H K :: real
  assumes "K \<le> H\<^sup>2"
  defines "d \<equiv> sqrt (H\<^sup>2 - K)"
  shows "H - d \<le> H + d" "(H + d) + (H - d) = 2 * H" "(H + d) * (H - d) = K"
    "l\<^sup>2 - 2 * H * l + K = 0 \<longleftrightarrow> l = H + d \<or> l = H - d"
proof -
  have d0: "0 \<le> d" using assms by simp
  have d2: "d\<^sup>2 = H\<^sup>2 - K" using assms by simp
  show "H - d \<le> H + d" using d0 by simp
  show "(H + d) + (H - d) = 2 * H" by simp
  show prod: "(H + d) * (H - d) = K" using d2 by (simp add: algebra_simps power2_eq_square)
  have "l\<^sup>2 - 2 * H * l + K = (l - (H + d)) * (l - (H - d))"
    using d2 by (simp add: algebra_simps power2_eq_square)
  then show "l\<^sup>2 - 2 * H * l + K = 0 \<longleftrightarrow> l = H + d \<or> l = H - d"
    by simp
qed

text \<open>
  C10.  At every point where \<open>K \<le> H\<^sup>2\<close>, the principal curvatures that
  \<open>ExtrinsicCurvatureSmooth\<close> returns are numbers \<open>k1 = H + sqrt (H\<^sup>2 - K)\<close> and
  \<open>k2 = H - sqrt (H\<^sup>2 - K)\<close> with \<open>k2 \<le> k1\<close>, \<open>k1 + k2 = 2 H\<close> and \<open>k1 k2 = K\<close>, and
  they are exactly the roots of \<open>l\<^sup>2 - 2 H l + K = 0\<close>: the first returned principal
  curvature is always the larger one.
\<close>

theorem principal_curvatures_are_roots:
  assumes "ret_K (ExtrinsicCurvatureSmooth mesh) p \<le> (ret_H (ExtrinsicCurvatureSmooth mesh) p)\<^sup>2"
  shows "\<exists>a b. ret_k1 (ExtrinsicCurvatureSmooth mesh) p = Some a
           \<and> ret_k2 (ExtrinsicCurvatureSmooth mesh) p = Some b
           \<and> a = ret_H (ExtrinsicCurvatureSmooth mesh) p
                 + sqrt ((ret_H (ExtrinsicCurvatureSmooth mesh) p)\<^sup>2 - ret_K (ExtrinsicCurvatureSmooth mesh) p)
           \<and> b = ret_H (ExtrinsicCurvatureSmooth mesh) p
                 - sqrt ((ret_H (ExtrinsicCurvatureSmooth mesh) p)\<^sup>2 - ret_K (ExtrinsicCurvatureSmooth mesh) p)
           \<and> b \<le> a
           \<and> a + b = 2 * ret_H (ExtrinsicCurvatureSmooth mesh) p
           \<and> a * b = ret_K (ExtrinsicCurvatureSmooth mesh) p
           \<and> (\<forall>l. l\<^sup>2 - 2 * ret_H (ExtrinsicCurvatureSmooth mesh) p * l
                      + ret_K (ExtrinsicCurvatureSmooth mesh) p = 0
                   \<longleftrightarrow> l = a \<or> l = b)"
proof -
  define H where "H = ret_H (ExtrinsicCurvatureSmooth mesh) p"
  define K where "K = ret_K (ExtrinsicCurvatureSmooth mesh) p"
  define d where "d = sqrt (H\<^sup>2 - K)"
  have le: "K \<le> H\<^sup>2" using assms by (simp add: H_def K_def)
  then have nn: "\<not> H\<^sup>2 - K < 0" by simp
  have k1: "ret_k1 (ExtrinsicCurvatureSmooth mesh) p = Some (H + d)"
    using nn by (simp add: ret_simps(3) cf_sqrt_def H_def K_def d_def)
  have k2: "ret_k2 (ExtrinsicCurvatureSmooth mesh) p = Some (H - d)"
    using nn by (simp add: ret_simps(4) cf_sqrt_def H_def K_def d_def)
  have "H - d \<le> H + d" "(H + d) + (H - d) = 2 * H" "(H + d) * (H - d) = K"
    "\<forall>l. l\<^sup>2 - 2 * H * l + K = 0 \<longleftrightarrow> l = H + d \<or> l = H - d"
    using quadratic_roots [OF le] unfolding d_def by blast+
  with k1 k2 show ?thesis
    unfolding H_def [symmetric] K_def [symmetric] d_def [symmetric] by blast
qed

lemma saddle_H: "ret_H (ExtrinsicCurvatureSmooth ()) saddle_point = 0"
  by (simp add: ret_simps saddle_point_def)
lemma saddle_K: "ret_K (ExtrinsicCurvatureSmooth ()) saddle_point = - 1"
  by (simp add: ret_simps saddle_point_def)

theorem principal_curvatures_are_roots_witness:
  "ret_K (ExtrinsicCurvatureSmooth ()) saddle_point \<le> (ret_H (ExtrinsicCurvatureSmooth ()) saddle_point)\<^sup>2
   \<and> ret_k1 (ExtrinsicCurvatureSmooth ()) saddle_point = Some 1
   \<and> ret_k2 (ExtrinsicCurvatureSmooth ()) saddle_point = Some (- 1)"
proof -
  have h: "ret_K (ExtrinsicCurvatureSmooth ()) saddle_point \<le> (ret_H (ExtrinsicCurvatureSmooth ()) saddle_point)\<^sup>2"
    by (simp add: saddle_H saddle_K)
  from principal_curvatures_are_roots [OF h]
  obtain a b where ab: "ret_k1 (ExtrinsicCurvatureSmooth ()) saddle_point = Some a"
    "ret_k2 (ExtrinsicCurvatureSmooth ()) saddle_point = Some b"
    "a = ret_H (ExtrinsicCurvatureSmooth ()) saddle_point
       + sqrt ((ret_H (ExtrinsicCurvatureSmooth ()) saddle_point)\<^sup>2
               - ret_K (ExtrinsicCurvatureSmooth ()) saddle_point)"
    "b = ret_H (ExtrinsicCurvatureSmooth ()) saddle_point
       - sqrt ((ret_H (ExtrinsicCurvatureSmooth ()) saddle_point)\<^sup>2
               - ret_K (ExtrinsicCurvatureSmooth ()) saddle_point)"
    by blast
  have "a = 1" "b = - 1" using ab(3,4) by (simp_all add: saddle_H saddle_K)
  with ab(1,2) h show ?thesis by simp
qed

subsection \<open>The cylinder\<close>

lemma cylinder_H:
  assumes "R \<noteq> 0"
  shows "ret_H (ExtrinsicCurvatureSmooth mesh) (cylinder_point R phi) = 1 / (2 * R)"
proof -
  have "(sin phi)\<^sup>2 / R + (cos phi)\<^sup>2 / R = ((sin phi)\<^sup>2 + (cos phi)\<^sup>2) / R"
    by (simp only: add_divide_distrib)
  also have "\<dots> = 1 / R" by simp
  finally have "(sin phi)\<^sup>2 / R + (cos phi)\<^sup>2 / R = 1 / R" .
  then have "Trace (Grad_normal (cylinder_point R phi)) = 1 / R"
    by (simp add: cylinder_point_def)
  then show ?thesis by (simp add: ret_simps)
qed

lemma cylinder_K: "ret_K (ExtrinsicCurvatureSmooth mesh) (cylinder_point R phi) = 0"
  by (simp add: ret_simps cylinder_point_def)

text \<open>
  C5, as the code has it.  On a cylinder of radius \<open>R > 0\<close> with outward normal,
  \<open>ExtrinsicCurvatureSmooth\<close> returns \<open>H = 1 / (2 R)\<close>, \<open>K = 0\<close>, and the principal
  curvatures in decreasing order: \<open>k1 = 1 / R\<close> first, \<open>k2 = 0\<close> second.
\<close>

theorem cylinder_curvatures:
  assumes "0 < R"
  shows "ret_H (ExtrinsicCurvatureSmooth mesh) (cylinder_point R phi) = 1 / (2 * R)
     \<and> ret_K (ExtrinsicCurvatureSmooth mesh) (cylinder_point R phi) = 0
     \<and> ret_k1 (ExtrinsicCurvatureSmooth mesh) (cylinder_point R phi) = Some (1 / R)
     \<and> ret_k2 (ExtrinsicCurvatureSmooth mesh) (cylinder_point R phi) = Some 0"
proof -
  have R: "R \<noteq> 0" using assms by simp
  have H: "ret_H (ExtrinsicCurvatureSmooth mesh) (cylinder_point R phi) = 1 / (2 * R)"
    by (rule cylinder_H [OF R])
  have K: "ret_K (ExtrinsicCurvatureSmooth mesh) (cylinder_point R phi) = 0"
    by (rule cylinder_K)
  have s: "sqrt ((1 / (2 * R))\<^sup>2) = 1 / (2 * R)" using assms by simp
  have k1: "ret_k1 (ExtrinsicCurvatureSmooth mesh) (cylinder_point R phi) = Some (1 / R)"
    unfolding ret_simps(3) H K using s assms by (simp add: cf_sqrt_def)
  have k2: "ret_k2 (ExtrinsicCurvatureSmooth mesh) (cylinder_point R phi) = Some 0"
    unfolding ret_simps(4) H K using s assms by (simp add: cf_sqrt_def)
  show ?thesis using H K k1 k2 by simp
qed

theorem cylinder_curvatures_witness:
  "(0::real) < 2
   \<and> ret_H (ExtrinsicCurvatureSmooth ()) (cylinder_point 2 0) = 1 / 4
   \<and> ret_K (ExtrinsicCurvatureSmooth ()) (cylinder_point 2 0) = 0
   \<and> ret_k1 (ExtrinsicCurvatureSmooth ()) (cylinder_point 2 0) = Some (1 / 2)
   \<and> ret_k2 (ExtrinsicCurvatureSmooth ()) (cylinder_point 2 0) = Some 0"
  using cylinder_curvatures [of 2 "()" 0] by simp

text \<open>
  On the notebook's cylinder of radius 2 the first returned principal curvature is
  \<open>1 / 2\<close>, not \<open>0\<close>, and the second is \<open>0\<close>, not \<open>1 / 2\<close>.
\<close>

theorem cylinder_k1_not_zero:
  "ret_k1 (ExtrinsicCurvatureSmooth ()) (cylinder_point 2 0) = Some (1 / 2)
   \<and> ret_k1 (ExtrinsicCurvatureSmooth ()) (cylinder_point 2 0) \<noteq> Some 0
   \<and> ret_k2 (ExtrinsicCurvatureSmooth ()) (cylinder_point 2 0) = Some 0
   \<and> ret_k2 (ExtrinsicCurvatureSmooth ()) (cylinder_point 2 0) \<noteq> Some (1 / 2)"
proof -
  have H: "ret_H (ExtrinsicCurvatureSmooth ()) (cylinder_point 2 0) = 1 / 4"
    using cylinder_H [of 2 "()" 0] by simp
  have s: "sqrt ((1 / 4)\<^sup>2) = (1 / 4 :: real)" by simp
  have k1: "ret_k1 (ExtrinsicCurvatureSmooth ()) (cylinder_point 2 0) = Some (1 / 2)"
    unfolding ret_simps(3) H cylinder_K using s by (simp add: cf_sqrt_def)
  have k2: "ret_k2 (ExtrinsicCurvatureSmooth ()) (cylinder_point 2 0) = Some 0"
    unfolding ret_simps(4) H cylinder_K using s by (simp add: cf_sqrt_def)
  show ?thesis using k1 k2 by simp
qed


section \<open>Properties of the extrinsic generalized curvature\<close>

lemma add_2pi_distinct:
  assumes "distinct is" and "\<And>i. i \<in> set is \<Longrightarrow> i < length f"
  shows "add_2pi is f
         = Some (map (\<lambda>i. if i \<in> set is then f ! i + 2 * pi else f ! i) [0..<length f])"
  using assms
proof (induction "is" arbitrary: f)
  case Nil
  then show ?case by (simp add: map_nth)
next
  case (Cons i "is")
  let ?g = "f[i := f ! i + 2 * pi]"
  have i: "i < length f" "i \<notin> set is" "distinct is" using Cons.prems by auto
  have len: "\<And>j. j \<in> set is \<Longrightarrow> j < length ?g" using Cons.prems by simp
  have "add_2pi (i # is) f = add_2pi is ?g" using i by simp
  also have "\<dots> = Some (map (\<lambda>j. if j \<in> set is then ?g ! j + 2 * pi else ?g ! j) [0..<length ?g])"
    by (rule Cons.IH [OF i(3) len])
  also have "map (\<lambda>j. if j \<in> set is then ?g ! j + 2 * pi else ?g ! j) [0..<length ?g]
           = map (\<lambda>j. if j \<in> set (i # is) then f ! j + 2 * pi else f ! j) [0..<length f]"
    using i by (auto simp: nth_list_update)
  finally show ?case .
qed

lemma GaussCurvature_zero_grad:
  "Grad_normal p = zero_mat3 \<Longrightarrow> GaussCurvature p = 0"
proof -
  assume z: "Grad_normal p = zero_mat3"
  obtain a b c where nu: "normal p = (a, b, c)" by (cases "normal p") auto
  show ?thesis by (simp add: GaussCurvature_def z nu zero_mat3_def algebra_simps)
qed

lemma ext_element_term_flat:
  assumes "list_all (\<lambda>p. Grad_normal (sp_point p) = zero_mat3) ps"
  shows "opt_sum (map (ext_element_term V i) ps) = Some 0"
proof (rule opt_sum_zero)
  show "list_all (\<lambda>p. ext_element_term V i p = Some 0) ps"
    using assms by (simp add: list_all_iff ext_element_term_def GaussCurvature_zero_grad)
qed

lemma vdot_zero_right: "vdot a (0, 0, 0) = 0"
  by (cases a) simp

lemma ext_edge_term_straight:
  assumes "list_all (\<lambda>p. bp_EdgeCurvature p = (0, 0, 0)) ps"
  shows "opt_sum (map (ext_edge_term V i) ps) = Some 0"
proof (rule opt_sum_zero)
  show "list_all (\<lambda>p. ext_edge_term V i p = Some 0) ps"
    using assms by (simp add: list_all_iff ext_edge_term_def vdot_zero_right)
qed

lemma ext_vertex_term_sum:
  assumes "list_all (\<lambda>c. cf_acos (vdot (vp_vt1 c) (vp_vt2 c)) = Some (a c)) cs"
  shows "opt_sum (map (ext_vertex_term V i) cs)
         = Some (\<Sum>c\<leftarrow>cs. - shape V i (vp_id c) * a c)"
  using assms by (induction cs) (simp_all add: ext_vertex_term_def)

lemma three_cases: "k < 3 \<Longrightarrow> k = 0 \<or> k = 1 \<or> k = (2::nat)"
  by linarith

lemma cube_dir_dot:
  assumes "a < 3" "b < 3"
  shows "vdot (cube_dir v a) (cube_dir v b) = (if a = b then 1 else 0)"
  using three_cases [OF assms(1)] three_cases [OF assms(2)]
  by (auto simp: cube_dir_def axis_vec_def)

lemma arccos_sqrt2_half: "arccos (sqrt 2 / 2) = pi / 4"
proof -
  have "arccos (cos (pi / 4)) = pi / 4" by (rule arccos_cos) simp_all
  then show ?thesis by (simp add: cos_45)
qed

lemma sqrt2_half_le: "sqrt 2 / 2 \<le> 1" "- 1 \<le> sqrt 2 / 2"
proof -
  have "sqrt 2 \<le> sqrt 4" by (rule real_sqrt_le_mono) simp
  then show "sqrt 2 / 2 \<le> 1" by simp
  have "0 \<le> sqrt 2 / 2" by simp
  then show "- 1 \<le> sqrt 2 / 2" by linarith
qed

lemma cube_diag_dot:
  assumes "k < 3"
  shows "vdot (cube_dir v k) (cube_diag_dir v k) = sqrt 2 / 2"
    and "vdot (cube_diag_dir v k) (cube_dir v ((k + 1) mod 3)) = sqrt 2 / 2"
  using three_cases [OF assms]
  by (auto simp: cube_diag_dir_def cube_dir_def axis_vec_def)

lemma cf_acos_cube:
  "cf_acos 0 = Some (pi / 2)" "cf_acos (sqrt 2 / 2) = Some (pi / 4)"
  using sqrt2_half_le by (simp_all add: cf_acos_def arccos_sqrt2_half)

lemma cube_face_angles:
  assumes "k < 3"
  shows "list_all (\<lambda>c. cf_acos (vdot (vp_vt1 c) (vp_vt2 c)) = Some (corner_angle c))
           (cube_face_corners diag v k)"
    and "(\<Sum>c\<leftarrow>cube_face_corners diag v k. corner_angle c) = pi / 2"
    and "list_all (\<lambda>c. vp_vertex c = v \<and> vp_id c div 6 = v \<and> vp_id c < 6 * v + 6)
           (cube_face_corners diag v k)"
proof -
  have k1: "(k + 1) mod 3 < 3" by simp
  have ne: "k \<noteq> (k + 1) mod 3" using assms by presburger
  have d0: "vdot (cube_dir v k) (cube_dir v ((k + 1) mod 3)) = 0"
    using cube_dir_dot [OF assms k1, of v] ne by simp
  note dd = cube_diag_dot [OF assms, of v]
  show "list_all (\<lambda>c. cf_acos (vdot (vp_vt1 c) (vp_vt2 c)) = Some (corner_angle c))
           (cube_face_corners diag v k)"
    unfolding cube_face_corners_def corner_angle_def
    by (simp only: list.pred_inject VtxPt.simps d0 dd cf_acos_cube arccos_0 arccos_sqrt2_half
        split: if_split) simp
  show "(\<Sum>c\<leftarrow>cube_face_corners diag v k. corner_angle c) = pi / 2"
    unfolding cube_face_corners_def corner_angle_def
    by (simp only: list.map sum_list.Cons sum_list.Nil VtxPt.simps d0 dd arccos_0
        arccos_sqrt2_half split: if_split) simp
  show "list_all (\<lambda>c. vp_vertex c = v \<and> vp_id c div 6 = v \<and> vp_id c < 6 * v + 6)
           (cube_face_corners diag v k)"
    using assms by (auto simp: cube_face_corners_def)
qed

lemma cube_corners_at_angles:
  shows "list_all (\<lambda>c. cf_acos (vdot (vp_vt1 c) (vp_vt2 c)) = Some (corner_angle c))
           (cube_corners_at diag v)"
    and "(\<Sum>c\<leftarrow>cube_corners_at diag v. corner_angle c) = 3 * (pi / 2)"
    and "list_all (\<lambda>c. vp_vertex c = v \<and> vp_id c div 6 = v \<and> vp_id c < 6 * v + 6)
           (cube_corners_at diag v)"
  using cube_face_angles [where k = 0 and diag = diag and v = v]
    cube_face_angles [where k = 1 and diag = diag and v = v]
    cube_face_angles [where k = 2 and diag = diag and v = v]
  by (simp_all add: cube_corners_at_def)

lemma cube_corners_filter:
  "filter (\<lambda>c. vp_vertex c = v) (cube_corners_at diag w)
   = (if v = w then cube_corners_at diag w else [])"
  using cube_corners_at_angles(3) [where diag = diag and v = w]
  by (auto simp: list_all_iff filter_empty_conv intro: filter_True)

lemma cube_corners_at_vertex:
  assumes "v < 8"
  shows "filter (\<lambda>c. vp_vertex c = v) (cube_corners diag) = cube_corners_at diag v"
proof -
  from assms have "v \<in> set [0, 1, 2, 3, 4, 5, 6, 7]" by (simp; linarith)
  then show ?thesis
    by (auto simp add: cube_corners_def cube_corners_filter)
qed

lemma cube_right_angles:
  "list_all (\<lambda>c. cf_acos (vdot (vp_vt1 c) (vp_vt2 c)) = Some (corner_angle c))
     (cube_corners diag)"
  by (simp add: cube_corners_def cube_corners_at_angles(1))

lemma sum_list_neg_scale:
  fixes a :: real
  shows "(\<Sum>c\<leftarrow>xs. - a * f c) = - a * (\<Sum>c\<leftarrow>xs. f c)"
  by (induction xs) (simp_all add: algebra_simps)

lemma cube_vertex_weight:
  "(\<Sum>c\<leftarrow>cube_corners_at diag w. - (if i = vp_vertex c then 1 else 0) * corner_angle c)
   = (if i = w then - 3 * (pi / 2) else 0)"
proof -
  have "(\<Sum>c\<leftarrow>cube_corners_at diag w. - (if i = vp_vertex c then 1 else 0) * corner_angle c)
        = (\<Sum>c\<leftarrow>cube_corners_at diag w. - (if i = w then 1 else 0) * corner_angle c)"
    using cube_corners_at_angles(3) [where diag = diag and v = w]
    by (intro arg_cong [where f = sum_list] map_cong refl) (simp add: list_all_iff)
  also have "\<dots> = - (if i = w then 1 else 0) * (\<Sum>c\<leftarrow>cube_corners_at diag w. corner_angle c)"
    by (rule sum_list_neg_scale)
  also have "\<dots> = (if i = w then - 3 * (pi / 2) else 0)"
    by (simp only: cube_corners_at_angles(2)) simp
  finally show ?thesis .
qed

lemma cube_vertex_count:
  "(\<Sum>c\<leftarrow>cube_corners diag. - (if i = vp_vertex c then 1 else 0) * corner_angle c)
   = (if i < 8 then - 3 * (pi / 2) else 0)"
proof -
  let ?F = "\<lambda>c. - (if i = vp_vertex c then 1 else 0) * corner_angle c"
  have "(\<Sum>c\<leftarrow>cube_corners diag. ?F c)
        = (\<Sum>w\<leftarrow>[0, 1, 2, 3, 4, 5, 6, 7]. \<Sum>c\<leftarrow>cube_corners_at diag w. ?F c)"
    by (simp add: cube_corners_def)
  also have "\<dots> = (\<Sum>w\<leftarrow>[0, 1, 2, 3, 4, 5, 6, 7]. if i = w then - 3 * (pi / 2) else 0)"
    by (simp only: cube_vertex_weight)
  also have "\<dots> = (if i < 8 then - 3 * (pi / 2) else 0)"
  proof (cases "i < 8")
    case True
    then have "i \<in> set [0, 1, 2, 3, 4, 5, 6, 7]" by (simp; linarith)
    then show ?thesis by auto
  next
    case False
    then show ?thesis by simp
  qed
  finally show ?thesis .
qed

lemma cube_vertex_terms:
  assumes "list_all (\<lambda>c. shape V i (vp_id c) = (if i = vp_vertex c then 1 else 0))
             (cube_corners diag)"
  shows "opt_sum (map (ext_vertex_term V i) (cube_corners diag))
         = Some (if i < 8 then - 3 * (pi / 2) else 0)"
proof -
  have "(\<Sum>c\<leftarrow>cube_corners diag. - shape V i (vp_id c) * corner_angle c)
        = (\<Sum>c\<leftarrow>cube_corners diag. - (if i = vp_vertex c then 1 else 0) * corner_angle c)"
    using assms by (intro arg_cong [where f = sum_list] map_cong refl) (simp add: list_all_iff)
  then show ?thesis
    using ext_vertex_term_sum [OF cube_right_angles, where V = V and i = i and diag1 = diag]
      cube_vertex_count [where diag = diag and i = i]
    by simp
qed

lemma cube_assemble_entry:
  assumes "is_cube_mesh diag m k" and "i < ndof (lagrange m k)"
  shows "ext_assemble_entry m k i = Some (if i < 8 then - 3 * (pi / 2) else 0)"
proof -
  have flat: "list_all (\<lambda>p. Grad_normal (sp_point p) = zero_mat3) (lf_ds m k 12)"
    and straight: "list_all (\<lambda>p. bp_EdgeCurvature p = (0, 0, 0)) (lf_ds_boundary m k 12)"
    and corners: "lf_ds_bbnd m = cube_corners diag"
    and sh: "list_all (\<lambda>c. list_all (\<lambda>i. shape (lagrange m k) i (vp_id c)
                                     = (if i = vp_vertex c then 1 else 0))
                              [0..<ndof (lagrange m k)]) (cube_corners diag)"
    using assms(1) by (simp_all add: is_cube_mesh_def)
  have "list_all (\<lambda>c. shape (lagrange m k) i (vp_id c) = (if i = vp_vertex c then 1 else 0))
          (cube_corners diag)"
    using sh assms(2) by (simp add: list_all_iff)
  then show ?thesis
    by (simp add: ext_assemble_entry_def Let_def corners cube_vertex_terms
        ext_element_term_flat [OF flat] ext_edge_term_straight [OF straight])
qed


lemma cube_load_vector:
  assumes "is_cube_mesh diag m k"
  shows "ext_load_vector m k
         = Some (map (\<lambda>i. if i < 8 then pi / 2 else 0) [0..<ndof (lagrange m k)])"
proof -
  let ?n = "ndof (lagrange m k)"
  let ?h = "\<lambda>i::nat. if i < 8 then - 3 * (pi / 2) else (0::real)"
  have nv: "nv m = 8" and n8: "8 \<le> ?n"
    using assms by (simp_all add: is_cube_mesh_def)
  have asm: "all_some (map (ext_assemble_entry m k) [0..<?n]) = Some (map ?h [0..<?n])"
    by (rule all_some_map) (simp add: cube_assemble_entry [OF assms])
  have "add_2pi [0..<8] (map ?h [0..<?n])
        = Some (map (\<lambda>i. if i \<in> set [0..<8] then map ?h [0..<?n] ! i + 2 * pi
                            else map ?h [0..<?n] ! i) [0..<length (map ?h [0..<?n])])"
    using n8 by (intro add_2pi_distinct) auto
  also have "map (\<lambda>i. if i \<in> set [0..<8] then map ?h [0..<?n] ! i + 2 * pi
                            else map ?h [0..<?n] ! i) [0..<length (map ?h [0..<?n])]
             = map (\<lambda>i. if i < 8 then pi / 2 else 0) [0..<?n]"
    by (rule nth_equalityI) simp_all
  finally show ?thesis
    by (simp add: ext_load_vector_def asm nv)
qed

text \<open>
  C7.  On a triangulated mesh of the cube surface, whichever diagonals cut the faces:
  at every vertex three faces meet, and the element vertices of each face there add
  up to the angle \<open>pi / 2\<close>; the vertex entries of the load vector of
  \<open>GeneralizedGaussCurvatureExtrinsic\<close> are the angle deficits \<open>2 pi\<close> minus the sum of
  the angles at the vertex, \<open>2 pi - 3 (pi / 2) = pi / 2\<close>; every other entry is zero;
  the eight deficits add up to \<open>8 (pi / 2) = 4 pi\<close>, which is \<open>2 pi\<close> times the Euler
  characteristic \<open>2\<close> that \<open>EulerChar\<close> computes.
\<close>

theorem cube_angle_deficit:
  assumes "is_cube_mesh diag m k"
  shows "\<exists>f. ext_load_vector m k = Some f
           \<and> length f = ndof (lagrange m k)
           \<and> (\<forall>v < 8. \<forall>a < 3.
                 (\<Sum>c\<leftarrow>cube_face_corners diag v a. arccos (vdot (vp_vt1 c) (vp_vt2 c))) = pi / 2)
           \<and> (\<forall>v < 8. filter (\<lambda>c. vp_vertex c = v) (lf_ds_bbnd m)
                          = concat (map (cube_face_corners diag v) [0, 1, 2])
                  \<and> f ! v = 2 * pi - (\<Sum>c\<leftarrow>filter (\<lambda>c. vp_vertex c = v) (lf_ds_bbnd m).
                                           arccos (vdot (vp_vt1 c) (vp_vt2 c)))
                  \<and> f ! v = 2 * pi - 3 * (pi / 2)
                  \<and> f ! v = pi / 2)
           \<and> (\<forall>i < length f. 8 \<le> i \<longrightarrow> f ! i = 0)
           \<and> (\<Sum>v < 8. f ! v) = 8 * (pi / 2)
           \<and> (\<Sum>v < 8. f ! v) = 4 * pi
           \<and> EulerChar m = 2
           \<and> (\<Sum>v < 8. f ! v) = 2 * pi * real_of_int (EulerChar m)"
proof -
  let ?n = "ndof (lagrange m k)"
  define f where "f = map (\<lambda>i. if i < 8 then pi / 2 else (0::real)) [0..<?n]"
  have nv: "nv m = 8" and n8: "8 \<le> ?n" and cnt: "nedge m = 18" "nface m = 12"
    and cs: "lf_ds_bbnd m = cube_corners diag"
    using assms by (simp_all add: is_cube_mesh_def)
  have lv: "ext_load_vector m k = Some f"
    unfolding f_def by (rule cube_load_vector [OF assms])
  have len: "length f = ?n" by (simp add: f_def)
  have low: "f ! v = pi / 2" if "v < 8" for v
    using that n8 by (simp add: f_def)
  have high: "f ! i = 0" if "i < length f" "8 \<le> i" for i
    using that by (simp add: f_def)
  have total: "(\<Sum>v < 8. f ! v) = 4 * pi"
  proof -
    have "(\<Sum>v < 8. f ! v) = (\<Sum>v < (8::nat). pi / 2)"
      by (rule sum.cong) (simp_all add: low)
    then show ?thesis by simp
  qed
  have chi: "EulerChar m = 2" by (simp add: EulerChar_def nv cnt)
  have c3: "\<forall>v < 8. \<forall>a < 3.
      (\<Sum>c\<leftarrow>cube_face_corners diag v a. arccos (vdot (vp_vt1 c) (vp_vt2 c))) = pi / 2"
  proof (intro allI impI)
    fix v a :: nat
    assume "a < 3"
    from cube_face_angles(2) [OF this, where diag = diag and v = v]
    show "(\<Sum>c\<leftarrow>cube_face_corners diag v a. arccos (vdot (vp_vt1 c) (vp_vt2 c))) = pi / 2"
      by (simp add: corner_angle_def [abs_def])
  qed
  have at: "filter (\<lambda>c. vp_vertex c = v) (lf_ds_bbnd m)
            = concat (map (cube_face_corners diag v) [0, 1, 2])" if "v < 8" for v
    using cube_corners_at_vertex [OF that, of diag] by (simp only: cs cube_corners_at_def)
  have sum3: "(\<Sum>c\<leftarrow>filter (\<lambda>c. vp_vertex c = v) (lf_ds_bbnd m).
                 arccos (vdot (vp_vt1 c) (vp_vt2 c))) = 3 * (pi / 2)" if "v < 8" for v
    using cube_corners_at_angles(2) [where diag = diag and v = v]
    by (simp only: at [OF that] cube_corners_at_def corner_angle_def [abs_def])
  have c4: "\<forall>v < 8. filter (\<lambda>c. vp_vertex c = v) (lf_ds_bbnd m)
                          = concat (map (cube_face_corners diag v) [0, 1, 2])
                  \<and> f ! v = 2 * pi - (\<Sum>c\<leftarrow>filter (\<lambda>c. vp_vertex c = v) (lf_ds_bbnd m).
                                           arccos (vdot (vp_vt1 c) (vp_vt2 c)))
                  \<and> f ! v = 2 * pi - 3 * (pi / 2)
                  \<and> f ! v = pi / 2"
  proof (intro allI impI conjI)
    fix v :: nat
    assume v: "v < 8"
    show "filter (\<lambda>c. vp_vertex c = v) (lf_ds_bbnd m)
          = concat (map (cube_face_corners diag v) [0, 1, 2])" by (rule at [OF v])
    show "f ! v = 2 * pi - (\<Sum>c\<leftarrow>filter (\<lambda>c. vp_vertex c = v) (lf_ds_bbnd m).
                               arccos (vdot (vp_vt1 c) (vp_vt2 c)))"
      unfolding sum3 [OF v] using low [OF v] by simp
    show "f ! v = 2 * pi - 3 * (pi / 2)" using low [OF v] by simp
    show "f ! v = pi / 2" by (rule low [OF v])
  qed
  have c5: "\<forall>i < length f. 8 \<le> i \<longrightarrow> f ! i = 0" using high by blast
  have t8: "(\<Sum>v < 8. f ! v) = 8 * (pi / 2)" using total by simp
  have fin: "(\<Sum>v < 8. f ! v) = 2 * pi * real_of_int (EulerChar m)"
    using total chi by simp
  show ?thesis
    by (intro exI [of _ f] conjI) (fact lv len c3 c4 c5 t8 total chi fin)+
qed

lemma cube_corner_ids:
  assumes "c \<in> set (cube_corners diag)"
  shows "vp_id c < 48 \<and> vp_id c div 6 = vp_vertex c"
proof -
  from assms obtain v where v: "v \<in> set [0, 1, 2, 3, 4, 5, 6, 7]"
    and c: "c \<in> set (cube_corners_at diag v)"
    by (auto simp: cube_corners_def)
  from cube_corners_at_angles(3) [where diag = diag and v = v] c
  have "vp_vertex c = v \<and> vp_id c div 6 = v \<and> vp_id c < 6 * v + 6"
    by (simp add: list_all_iff)
  moreover have "v < 8" using v by auto
  ultimately show ?thesis by simp
qed

lemma cube_mesh_is_cube_mesh: "is_cube_mesh diag (cube_mesh diag) k"
proof -
  have "shape (lagrange (cube_mesh diag) k) i (vp_id c) = (if i = vp_vertex c then 1 else 0)"
    if "c \<in> set (cube_corners diag)" for c i
    using cube_corner_ids [OF that]
    by (auto simp: cube_mesh_def cube_basis_def cube_shape_def)
  then show ?thesis
    by (simp add: is_cube_mesh_def list_all_iff)
       (simp add: cube_mesh_def cube_basis_def cube_centroid_point_def cube_edge_point_def Let_def)
qed

lemma mixed_corners:
  "map (\<lambda>c. arccos (vdot (vp_vt1 c) (vp_vt2 c))) (cube_corners_at mixed_diag 0)
   = [pi / 4, pi / 4, pi / 4, pi / 4, pi / 4, pi / 4]"
  "map (\<lambda>c. arccos (vdot (vp_vt1 c) (vp_vt2 c))) (cube_corners_at mixed_diag 7)
   = [pi / 2, pi / 2, pi / 2]"
  by (simp_all add: cube_corners_at_def cube_face_corners_def on_diagonal_def mixed_diag_def
      cube_face_of_def cube_bit_def cube_dir_def cube_diag_dir_def axis_vec_def
      arccos_sqrt2_half)

theorem cube_angle_deficit_witness:
  "is_cube_mesh mixed_diag (cube_mesh mixed_diag) 1
   \<and> map (\<lambda>c. arccos (vdot (vp_vt1 c) (vp_vt2 c)))
         (filter (\<lambda>c. vp_vertex c = 0) (lf_ds_bbnd (cube_mesh mixed_diag)))
       = [pi / 4, pi / 4, pi / 4, pi / 4, pi / 4, pi / 4]
   \<and> map (\<lambda>c. arccos (vdot (vp_vt1 c) (vp_vt2 c)))
         (filter (\<lambda>c. vp_vertex c = 7) (lf_ds_bbnd (cube_mesh mixed_diag)))
       = [pi / 2, pi / 2, pi / 2]
   \<and> ext_load_vector (cube_mesh mixed_diag) 1
       = Some [pi / 2, pi / 2, pi / 2, pi / 2, pi / 2, pi / 2, pi / 2, pi / 2]"
proof -
  have is_mesh: "is_cube_mesh mixed_diag (cube_mesh mixed_diag) 1"
    by (rule cube_mesh_is_cube_mesh)
  from cube_angle_deficit [OF is_mesh]
  obtain f where f: "ext_load_vector (cube_mesh mixed_diag) 1 = Some f" "length f = 8"
    "\<forall>v < 8. f ! v = pi / 2"
    by (auto simp: cube_mesh_def cube_basis_def)
  have "f = [pi / 2, pi / 2, pi / 2, pi / 2, pi / 2, pi / 2, pi / 2, pi / 2]"
    using f(2,3) by (intro nth_equalityI) (auto simp: nth_Cons' )
  moreover have bb: "lf_ds_bbnd (cube_mesh mixed_diag) = cube_corners mixed_diag"
    by (simp add: cube_mesh_def)
  ultimately show ?thesis
    using f(1) is_mesh mixed_corners
    by (simp only: bb cube_corners_at_vertex [of 0] cube_corners_at_vertex [of 7])
qed

section \<open>Properties of the generalized Weingarten functional\<close>

lemma vdot_Cross_self: "vdot a (Cross a t) = 0"
  by (cases a, cases t) (simp add: algebra_simps)

lemma vdot_scale_left: "vdot (vec_scale k a) b = k * vdot a b"
  by (cases a, cases b) (simp add: algebra_simps)

lemma vdot_add_left: "vdot (vec_add a b) c = vdot a c + vdot b c"
  by (cases a, cases b, cases c) (simp add: algebra_simps)

lemma vdot_commute: "vdot a b = vdot b a"
  by (cases a, cases b) (simp add: algebra_simps)

lemma triple_swap_neg: "vdot a (Cross b (vec_neg t)) = vdot b (Cross a t)"
  by (cases a, cases b, cases t) (simp add: algebra_simps)

lemma gram_identity:
  "(vdot a (Cross b t))\<^sup>2
   = vdot a a * vdot b b * vdot t t + 2 * vdot a b * vdot b t * vdot a t
     - vdot a a * (vdot b t)\<^sup>2 - vdot b b * (vdot a t)\<^sup>2 - vdot t t * (vdot a b)\<^sup>2"
  by (cases a, cases b, cases t) (simp add: power2_eq_square algebra_simps)

lemma InnerProduct_OuterProduct: "InnerProduct (OuterProduct m m) S = bilin S m m"
proof -
  obtain m0 m1 m2 where m: "m = (m0, m1, m2)" by (cases m) auto
  obtain r0 r1 r2 where S: "S = (r0, r1, r2)" by (cases S) auto
  obtain a b c where r0: "r0 = (a, b, c)" by (cases r0) auto
  obtain d e f where r1: "r1 = (d, e, f)" by (cases r1) auto
  obtain g h i where r2: "r2 = (g, h, i)" by (cases r2) auto
  show ?thesis by (simp add: m S r0 r1 r2 bilin_def algebra_simps)
qed

lemma half_angle_nonneg:
  assumes "0 \<le> a" "a \<le> 1"
  shows "2 * (pi / 2 - arccos a) = arccos (1 - 2 * a\<^sup>2)"
proof -
  let ?phi = "arccos a"
  have phi: "0 \<le> ?phi" "?phi \<le> pi / 2" "cos ?phi = a"
  proof -
    show "0 \<le> ?phi" using assms by (intro arccos_lbound) simp_all
    show "?phi \<le> pi / 2" using assms by (rule arccos_le_pi2)
    show "cos ?phi = a" using assms by (intro cos_arccos) simp_all
  qed
  have "cos (pi - 2 * ?phi) = - cos (2 * ?phi)" by (simp add: cos_diff)
  also have "\<dots> = 1 - 2 * a\<^sup>2" by (simp add: cos_double_cos phi(3))
  finally have "arccos (1 - 2 * a\<^sup>2) = arccos (cos (pi - 2 * ?phi))" by simp
  also have "\<dots> = pi - 2 * ?phi" using phi by (intro arccos_cos) simp_all
  finally show ?thesis by simp
qed

lemma half_angle_neg:
  assumes "- 1 \<le> a" "a \<le> 0"
  shows "2 * (pi / 2 - arccos a) = - arccos (1 - 2 * a\<^sup>2)"
proof -
  let ?phi = "arccos a"
  have phi: "pi / 2 \<le> ?phi" "?phi \<le> pi" "cos ?phi = a"
  proof -
    show "?phi \<le> pi" using assms by (intro arccos_ubound) simp_all
    show "cos ?phi = a" using assms by (intro cos_arccos) simp_all
    have "arccos 0 \<le> arccos a" using assms by (intro arccos_le_arccos) simp_all
    then show "pi / 2 \<le> ?phi" by simp
  qed
  have "cos (2 * ?phi - pi) = - cos (2 * ?phi)" by (simp add: cos_diff)
  also have "\<dots> = 1 - 2 * a\<^sup>2" by (simp add: cos_double_cos phi(3))
  finally have "arccos (1 - 2 * a\<^sup>2) = arccos (cos (2 * ?phi - pi))" by simp
  also have "\<dots> = 2 * ?phi - pi" using phi by (intro arccos_cos) simp_all
  finally show ?thesis by simp
qed


lemma vdot_avg_avg:
  "vdot (vec_scale (1 / 2) (vec_add a b)) (vec_scale (1 / 2) (vec_add a b))
   = (vdot a a + 2 * vdot a b + vdot b b) / 4"
  by (cases a, cases b) (simp add: field_simps)

lemma unit_vdot_bounds:
  assumes "vdot a a = 1" "vdot b b = 1"
  shows "- 1 \<le> vdot a b" "vdot a b \<le> 1"
proof -
  obtain a0 a1 a2 where a: "a = (a0, a1, a2)" by (cases a) auto
  obtain b0 b1 b2 where b: "b = (b0, b1, b2)" by (cases b) auto
  have "0 \<le> (a0 - b0)\<^sup>2 + (a1 - b1)\<^sup>2 + (a2 - b2)\<^sup>2" by simp
  also have "\<dots> = vdot a a + vdot b b - 2 * vdot a b"
    by (simp add: a b power2_eq_square algebra_simps)
  finally show "vdot a b \<le> 1" using assms by simp
  have "0 \<le> (a0 + b0)\<^sup>2 + (a1 + b1)\<^sup>2 + (a2 + b2)\<^sup>2" by simp
  also have "\<dots> = vdot a a + vdot b b + 2 * vdot a b"
    by (simp add: a b power2_eq_square algebra_simps)
  finally show "- 1 \<le> vdot a b" using assms by simp
qed

lemma edge_pair:
  assumes ok: "edge_ok e" and cont: "nn_continuous tau e"
  shows "\<exists>A B.
      wein_boundary_term tau
        \<lparr> wb_side = eg_plus e, wb_nu_avg = nu_avg e, wb_weight = eg_weight e \<rparr> = Some A
    \<and> wein_boundary_term tau
        \<lparr> wb_side = eg_minus e, wb_nu_avg = nu_avg e, wb_weight = eg_weight e \<rparr> = Some B
    \<and> signed_edge_term tau e = Some (A + B)"
proof -
  define np where "np = es_normal (eg_plus e)"
  define nm where "nm = es_normal (eg_minus e)"
  define t where "t = es_tangential (eg_plus e)"
  define c where "c = vdot np nm"
  define D where "D = vdot nm (Cross np t)"
  define n where "n = sqrt ((1 + c) / 2)"
  define a where "a = (1 / n) * (D / 2)"
  define sp where "sp = bilin (tau (es_id (eg_plus e))) (Cross np t) (Cross np t)"
  define w where "w = eg_weight e"
  have unit: "vdot np np = 1" "vdot nm nm = 1" "vdot t t = 1"
    and orth: "vdot np t = 0" "vdot nm t = 0"
    and tm: "es_tangential (eg_minus e) = vec_neg t"
    and c1: "c \<noteq> - 1"
    using ok by (simp_all add: edge_ok_def np_def nm_def t_def c_def)
  have sm: "bilin (tau (es_id (eg_minus e))) (Cross nm (vec_neg t)) (Cross nm (vec_neg t)) = sp"
    using cont by (simp add: nn_continuous_def sp_def np_def nm_def t_def tm [unfolded t_def])
  have cb: "- 1 < c" "c \<le> 1"
    using unit_vdot_bounds [OF unit(1,2)] c1 by (simp_all add: c_def)
  have avg: "nu_avg e = vec_scale (1 / 2) (vec_add np nm)"
    by (simp add: nu_avg_def np_def nm_def)
  have avg2: "vdot (nu_avg e) (nu_avg e) = (1 + c) / 2"
    by (simp add: avg vdot_avg_avg unit c_def)
  have npos: "0 < n" using cb by (simp add: n_def)
  have n2: "n\<^sup>2 = (1 + c) / 2" using cb by (simp add: n_def)
  have norm: "Normalize (nu_avg e) = Some (vec_scale (1 / n) (nu_avg e))"
    using npos cb by (simp add: Normalize_def avg2 cf_sqrt_def n_def [symmetric])
  have dplus: "vdot (nu_avg e) (Cross np t) = D / 2"
    unfolding avg vdot_scale_left vdot_add_left
    by (simp add: vdot_Cross_self D_def)
  have dminus: "vdot (nu_avg e) (Cross nm (vec_neg t)) = D / 2"
    unfolding avg vdot_scale_left vdot_add_left
    by (simp add: vdot_Cross_self triple_swap_neg D_def)
  have D2: "D\<^sup>2 = 1 - c\<^sup>2"
    unfolding D_def gram_identity
    by (simp add: unit orth c_def vdot_commute [of nm np])
  have a2: "a\<^sup>2 = (1 - c) / 2"
  proof -
    have nz: "1 + c \<noteq> 0" using cb by simp
    have "a\<^sup>2 = D\<^sup>2 / (4 * n\<^sup>2)" by (simp add: a_def power_divide power_mult_distrib)
    also have "4 * n\<^sup>2 = 2 * (1 + c)" by (simp add: n2)
    also have "D\<^sup>2 = (1 - c) * (1 + c)"
      unfolding D2 by (simp add: power2_eq_square algebra_simps)
    also have "(1 - c) * (1 + c) / (2 * (1 + c)) = (1 - c) / 2"
      using nz by (simp add: field_simps)
    finally show ?thesis .
  qed
  have "a\<^sup>2 \<le> 1" using cb by (simp add: a2)
  then have "\<bar>a\<bar> \<le> 1" using abs_le_square_iff [of a 1] by simp
  then have ab: "- 1 \<le> a" "a \<le> 1" by linarith+
  have c_a: "1 - 2 * a\<^sup>2 = c" unfolding a2 by (simp add: field_simps)
  have aplus: "vdot (vec_scale (1 / n) (nu_avg e)) (Cross np t) = a"
    by (simp only: vdot_scale_left dplus a_def)
  have aminus: "vdot (vec_scale (1 / n) (nu_avg e)) (Cross nm (vec_neg t)) = a"
    by (simp only: vdot_scale_left dminus a_def)
  have acos_a: "cf_acos a = Some (arccos a)" using ab by (simp add: cf_acos_def)
  have acos_c: "cf_acos c = Some (arccos c)" using cb by (simp add: cf_acos_def)
  have A: "wein_boundary_term tau
        \<lparr> wb_side = eg_plus e, wb_nu_avg = nu_avg e, wb_weight = eg_weight e \<rparr>
      = Some ((pi / 2 - arccos a) * sp * w)"
    by (simp add: wein_boundary_term_def Let_def norm np_def [symmetric] t_def [symmetric]
        aplus acos_a sp_def w_def)
  have B: "wein_boundary_term tau
        \<lparr> wb_side = eg_minus e, wb_nu_avg = nu_avg e, wb_weight = eg_weight e \<rparr>
      = Some ((pi / 2 - arccos a) * sp * w)"
    by (simp add: wein_boundary_term_def Let_def norm nm_def [symmetric] tm
        aminus acos_a sm w_def)
  have sgn: "edge_sign e = (if 0 \<le> a then 1 else - 1)"
  proof -
    have "0 \<le> a \<longleftrightarrow> 0 \<le> D / 2"
      using npos by (simp add: a_def zero_le_mult_iff zero_le_divide_iff)
    then show ?thesis
      by (simp add: edge_sign_def np_def [symmetric] t_def [symmetric] dplus)
  qed
  have ang: "2 * (pi / 2 - arccos a) = edge_sign e * arccos c"
  proof (cases "0 \<le> a")
    case True
    then show ?thesis using half_angle_nonneg [OF True ab(2)] by (simp add: sgn c_a)
  next
    case False
    then have "a \<le> 0" by simp
    from half_angle_neg [OF ab(1) this] False show ?thesis by (simp add: sgn c_a)
  qed
  have S: "signed_edge_term tau e = Some (edge_sign e * arccos c * sp * w)"
    by (simp add: signed_edge_term_def Let_def np_def [symmetric] nm_def [symmetric]
        t_def [symmetric] c_def [symmetric] acos_c InnerProduct_OuterProduct sp_def w_def)
  have "(pi / 2 - arccos a) * sp * w + (pi / 2 - arccos a) * sp * w
        = (2 * (pi / 2 - arccos a)) * sp * w" by (simp add: algebra_simps)
  also have "\<dots> = edge_sign e * arccos c * sp * w" by (simp only: ang)
  finally have sum: "(pi / 2 - arccos a) * sp * w + (pi / 2 - arccos a) * sp * w
        = edge_sign e * arccos c * sp * w" .
  show ?thesis
    by (intro exI conjI) (rule A, rule B, simp only: S sum)
qed


lemma border_term_zero:
  assumes "border_ok b"
  shows "wein_boundary_term tau
           \<lparr> wb_side = fst b, wb_nu_avg = es_normal (fst b), wb_weight = snd b \<rparr> = Some 0"
proof -
  have u: "vdot (es_normal (fst b)) (es_normal (fst b)) = 1"
    using assms by (simp add: border_ok_def)
  have n: "Normalize (es_normal (fst b)) = Some (vec_scale 1 (es_normal (fst b)))"
    by (simp add: Normalize_def u cf_sqrt_def)
  show ?thesis
    by (simp add: wein_boundary_term_def Let_def n vdot_scale_left vdot_Cross_self cf_acos_def)
qed

lemma border_sum_zero:
  assumes "list_all border_ok bs"
  shows "opt_sum (map (wein_boundary_term tau)
           (map (\<lambda>(s, w). \<lparr> wb_side = s, wb_nu_avg = es_normal s, wb_weight = w \<rparr>) bs)) = Some 0"
  using assms
proof (induction bs)
  case Nil
  show ?case by simp
next
  case (Cons b bs)
  obtain s w where b: "b = (s, w)" by (cases b) auto
  have "border_ok b" using Cons.prems by simp
  from border_term_zero [OF this, of tau] show ?case
    using Cons by (simp add: b)
qed

lemma boundary_sum_signed:
  assumes "list_all edge_ok es" and "list_all (nn_continuous tau) es"
    and "list_all border_ok bs"
  shows "opt_sum (map (wein_boundary_term tau) (element_boundary es bs))
         = opt_sum (map (signed_edge_term tau) es)"
  using assms(1,2)
proof (induction es)
  case Nil
  show ?case
    using border_sum_zero [OF assms(3), of tau] by (simp add: element_boundary_def)
next
  case (Cons e es)
  have ok: "edge_ok e" "nn_continuous tau e" using Cons.prems by simp_all
  from edge_pair [OF ok] obtain A B where
    A: "wein_boundary_term tau
          \<lparr> wb_side = eg_plus e, wb_nu_avg = nu_avg e, wb_weight = eg_weight e \<rparr> = Some A"
    and B: "wein_boundary_term tau
          \<lparr> wb_side = eg_minus e, wb_nu_avg = nu_avg e, wb_weight = eg_weight e \<rparr> = Some B"
    and S: "signed_edge_term tau e = Some (A + B)" by blast
  have IH: "opt_sum (map (wein_boundary_term tau) (element_boundary es bs))
         = opt_sum (map (signed_edge_term tau) es)"
    using Cons by simp
  have split: "element_boundary (e # es) bs
      = \<lparr> wb_side = eg_plus e, wb_nu_avg = nu_avg e, wb_weight = eg_weight e \<rparr>
        # \<lparr> wb_side = eg_minus e, wb_nu_avg = nu_avg e, wb_weight = eg_weight e \<rparr>
        # element_boundary es bs"
    by (simp add: element_boundary_def)
  show ?case
    unfolding split
    by (cases "opt_sum (map (signed_edge_term tau) es)") (simp_all add: A B S IH)
qed

lemma wein_functional_signed:
  assumes "list_all edge_ok (wm_edges mesh k)"
    and "list_all (nn_continuous sigma) (wm_edges mesh k)"
    and "list_all border_ok (wm_border mesh k)"
  shows "wein_functional mesh k sigma = signed_wein_functional mesh k sigma"
  by (simp add: wein_functional_def signed_wein_functional_def boundary_sum_signed [OF assms])

lemma signed_edge_term_convex:
  assumes "edge_sign e = 1"
  shows "signed_edge_term sigma e = spec_edge_term sigma e"
  by (simp add: signed_edge_term_def spec_edge_term_def assms)

lemma signed_functional_convex:
  assumes "list_all (\<lambda>e. edge_sign e = 1) (wm_edges mesh k)"
  shows "signed_wein_functional mesh k sigma = spec_wein_functional mesh k sigma"
proof -
  have "map (signed_edge_term sigma) (wm_edges mesh k)
        = map (spec_edge_term sigma) (wm_edges mesh k)"
    using assms by (intro map_cong refl signed_edge_term_convex) (simp add: list_all_iff)
  then show ?thesis
    unfolding signed_wein_functional_def spec_wein_functional_def by (simp only:)
qed

text \<open>
  C6, as the code has it.  On a mesh with well-formed edge data, for every test tensor
  whose normal-normal component is the same on both sides of each edge, the
  element-boundary form that \<open>GeneralizedWeingarten\<close> assembles is the edge form with the
  signed angle between the normals: \<open>acos (nu\<^sub>+ * nu\<^sub>-)\<close> where the co-normal makes an
  acute angle with the averaged normal, and its negative where it makes an obtuse one.
  Where every edge is of the first kind, it is the edge form of the specification.
\<close>

theorem GeneralizedWeingarten_edge_form:
  assumes "list_all edge_ok (wm_edges mesh k)"
    and "list_all (nn_continuous sigma) (wm_edges mesh k)"
    and "list_all border_ok (wm_border mesh k)"
  shows "wein_functional mesh k sigma = signed_wein_functional mesh k sigma
     \<and> (list_all (\<lambda>e. edge_sign e = 1) (wm_edges mesh k)
          \<longrightarrow> wein_functional mesh k sigma = spec_wein_functional mesh k sigma)"
  using wein_functional_signed [OF assms] signed_functional_convex [of mesh k sigma]
  by simp

lemma reentrant_mesh_ok:
  "list_all edge_ok (wm_edges reentrant_mesh k)"
  "list_all (nn_continuous (\<lambda>p. identity3)) (wm_edges reentrant_mesh k)"
  "list_all border_ok (wm_border reentrant_mesh k)"
  by (simp_all add: reentrant_mesh_def reentrant_edge_def edge_ok_def nn_continuous_def
      border_ok_def identity3_def bilin_def)

lemma ridge_mesh_ok:
  "list_all edge_ok (wm_edges ridge_mesh k)"
  "list_all (nn_continuous (\<lambda>p. identity3)) (wm_edges ridge_mesh k)"
  "list_all border_ok (wm_border ridge_mesh k)"
  "list_all (\<lambda>e. edge_sign e = 1) (wm_edges ridge_mesh k)"
  by (simp_all add: ridge_mesh_def ridge_edge_def edge_ok_def nn_continuous_def
      border_ok_def identity3_def bilin_def edge_sign_def nu_avg_def)

lemma reentrant_signed:
  "signed_wein_functional reentrant_mesh k (\<lambda>p. identity3) = Some (- (pi / 2))"
  by (simp add: signed_wein_functional_def reentrant_mesh_def reentrant_edge_def
      wein_element_term_def flat_point_def zero_mat3_def identity3_def
      signed_edge_term_def edge_sign_def nu_avg_def cf_acos_def)

lemma reentrant_spec:
  "spec_wein_functional reentrant_mesh k (\<lambda>p. identity3) = Some (pi / 2)"
  by (simp add: spec_wein_functional_def reentrant_mesh_def reentrant_edge_def
      wein_element_term_def flat_point_def zero_mat3_def identity3_def
      spec_edge_term_def cf_acos_def)

lemma ridge_spec:
  "spec_wein_functional ridge_mesh k (\<lambda>p. identity3) = Some (pi / 2)"
  by (simp add: spec_wein_functional_def ridge_mesh_def ridge_edge_def
      wein_element_term_def flat_point_def zero_mat3_def identity3_def
      spec_edge_term_def cf_acos_def)

theorem GeneralizedWeingarten_edge_form_witness:
  "list_all edge_ok (wm_edges ridge_mesh 1)
   \<and> list_all (nn_continuous (\<lambda>p. identity3)) (wm_edges ridge_mesh 1)
   \<and> list_all border_ok (wm_border ridge_mesh 1)
   \<and> list_all (\<lambda>e. edge_sign e = 1) (wm_edges ridge_mesh 1)
   \<and> wein_functional ridge_mesh 1 (\<lambda>p. identity3) = Some (pi / 2)
   \<and> spec_wein_functional ridge_mesh 1 (\<lambda>p. identity3) = Some (pi / 2)"
proof -
  note ok = ridge_mesh_ok [of 1]
  from GeneralizedWeingarten_edge_form [OF ok(1,2,3)] ok(4)
  have "wein_functional ridge_mesh 1 (\<lambda>p. identity3)
        = spec_wein_functional ridge_mesh 1 (\<lambda>p. identity3)" by blast
  then show ?thesis using ok ridge_spec [of 1] by simp
qed

text \<open>
  At a reentrant edge the two forms differ: with the identity as test tensor (symmetric,
  normal-normal component 1 on both sides) the element-boundary form of the code gives
  \<open>- pi / 2\<close>, the edge form of the specification \<open>pi / 2\<close>.
\<close>

theorem reentrant_edge_forms_differ:
  "symmetric3 identity3
   \<and> list_all edge_ok (wm_edges reentrant_mesh 1)
   \<and> list_all (nn_continuous (\<lambda>p. identity3)) (wm_edges reentrant_mesh 1)
   \<and> wein_functional reentrant_mesh 1 (\<lambda>p. identity3) = Some (- (pi / 2))
   \<and> spec_wein_functional reentrant_mesh 1 (\<lambda>p. identity3) = Some (pi / 2)
   \<and> wein_functional reentrant_mesh 1 (\<lambda>p. identity3)
       \<noteq> spec_wein_functional reentrant_mesh 1 (\<lambda>p. identity3)"
proof -
  have "wein_functional reentrant_mesh 1 (\<lambda>p. identity3) = Some (- (pi / 2))"
    using wein_functional_signed [OF reentrant_mesh_ok [of 1]] reentrant_signed [of 1]
    by simp
  moreover have "- (pi / 2) \<noteq> pi / 2" using pi_gt_zero by linarith
  ultimately show ?thesis
    using reentrant_mesh_ok [of 1] reentrant_spec [of 1]
    by (simp add: symmetric3_def identity3_def)
qed


section \<open>Properties of the intrinsic curvature evaluator\<close>

text \<open>
  C4.  The notebook cell computes, at every point, \<open>Kh = R\<^sub>0\<^sub>1\<^sub>1\<^sub>0 / Det gh\<close> (a number
  wherever the determinant is not zero), with \<open>R\<close> the Riemann operator of the metric
  GridFunction; the result is the same in two states of the notebook with the same
  metric, whatever the embedding and the surface mesh are; and
  \<open>GeneralizedGaussCurvature\<close>, whose inputs are the parameter mesh, the metric and the
  lift order, returns the same for the same parameter mesh and metric.
\<close>

theorem intrinsic_curvature_from_metric_only:
  "cell_Kh s p = cf_div (Operator_Riemann (nb_gh s) p 0 1 1 0) (Det2 (gf (nb_gh s) p))
   \<and> (Det2 (gf (nb_gh s) p) \<noteq> 0 \<longrightarrow>
        cell_Kh s p = Some (Operator_Riemann (nb_gh s) p 0 1 1 0 / Det2 (gf (nb_gh s) p)))
   \<and> (nb_gh s' = nb_gh s \<longrightarrow> cell_Kh s' = cell_Kh s)
   \<and> cell_Kh (s\<lparr> nb_u := u', nb_hemisph_mesh := m' \<rparr>) = cell_Kh s
   \<and> (nb_gh s' = nb_gh s \<and> nb_param_mesh s' = nb_param_mesh s \<longrightarrow>
        GeneralizedGaussCurvature Inverse (nb_param_mesh s') (nb_gh s') lift_order
        = GeneralizedGaussCurvature Inverse (nb_param_mesh s) (nb_gh s) lift_order)"
  by (simp add: cell_Kh_def Let_def cf_div_def)

theorem intrinsic_curvature_from_metric_only_witness:
  "nb_gh hemisphere_notebook = nb_gh flat_notebook
   \<and> nb_u hemisphere_notebook \<noteq> nb_u flat_notebook
   \<and> Det2 (gf (nb_gh hemisphere_notebook) 0) \<noteq> 0
   \<and> cell_Kh hemisphere_notebook 0 = Some 1
   \<and> cell_Kh flat_notebook = cell_Kh hemisphere_notebook"
proof -
  have g: "nb_gh hemisphere_notebook = nb_gh flat_notebook"
    by (simp add: hemisphere_notebook_def flat_notebook_def)
  have u: "nb_u hemisphere_notebook \<noteq> nb_u flat_notebook"
  proof
    assume "nb_u hemisphere_notebook = nb_u flat_notebook"
    then have "nb_u hemisphere_notebook 0 = nb_u flat_notebook 0" by simp
    then show False by (simp add: hemisphere_notebook_def flat_notebook_def)
  qed
  have d: "Det2 (gf (nb_gh hemisphere_notebook) 0) = pi ^ 4 / 16"
    by (simp add: hemisphere_notebook_def pole_gh_def power4_eq_xxxx power2_eq_square)
  have r: "Operator_Riemann (nb_gh hemisphere_notebook) 0 0 1 1 0 = pi ^ 4 / 16"
    by (simp add: hemisphere_notebook_def pole_gh_def)
  have nz: "Det2 (gf (nb_gh hemisphere_notebook) 0) \<noteq> 0" by (simp add: d)
  note T = intrinsic_curvature_from_metric_only
    [where s = hemisphere_notebook and p = 0 and s' = flat_notebook]
  from T nz have "cell_Kh hemisphere_notebook 0
        = Some (Operator_Riemann (nb_gh hemisphere_notebook) 0 0 1 1 0
                / Det2 (gf (nb_gh hemisphere_notebook) 0))" by blast
  then have k: "cell_Kh hemisphere_notebook 0 = Some 1" unfolding r d by simp
  from T g have e: "cell_Kh flat_notebook = cell_Kh hemisphere_notebook" by metis
  show ?thesis using g u nz k e by simp
qed

subsection \<open>The lifting\<close>

lemma lift_zero_on_constrained:
  assumes inv: "inverse_on M free A" and len: "length f = length M"
    and i: "i < length M" and nf: "\<not> free ! i"
  shows "mat_vec A f ! i = 0"
proof -
  have "A ! i ! k = 0" if "k < length M" for k
    using inv i nf that by (simp add: inverse_on_def)
  then have "(\<Sum>k < length f. A ! i ! k * f ! k) = 0"
    by (intro sum.neutral) (simp add: len)
  then show ?thesis using inv i by (simp add: mat_vec_nth inverse_on_def)
qed

lemma lift_solves_on_free:
  assumes inv: "inverse_on M free A" and len: "length f = length M"
    and i: "i < length M" and fr: "free ! i"
  shows "mat_vec M (mat_vec A f) ! i = f ! i"
proof -
  let ?n = "length M"
  have lenA: "length A = ?n" using inv by (simp add: inverse_on_def)
  have zero: "A ! j ! k = 0" if "j < ?n" "k < ?n" "\<not> free ! k" for j k
    using inv that by (simp add: inverse_on_def)
  have unit: "(\<Sum>j < ?n. M ! i ! j * A ! j ! k) = (if i = k then 1 else 0)"
    if "k < ?n" "free ! k" for k
    using inv i fr that by (simp add: inverse_on_def)
  have col: "(\<Sum>j < ?n. M ! i ! j * A ! j ! k) = (if i = k then 1 else 0)" if "k < ?n" for k
  proof (cases "free ! k")
    case True
    then show ?thesis using unit that by simp
  next
    case False
    have "(\<Sum>j < ?n. M ! i ! j * A ! j ! k) = 0"
      by (intro sum.neutral) (simp add: zero that False)
    moreover have "i \<noteq> k" using False fr by auto
    ultimately show ?thesis by simp
  qed
  have "mat_vec M (mat_vec A f) ! i = (\<Sum>j < ?n. M ! i ! j * mat_vec A f ! j)"
    using i by (simp add: mat_vec_nth length_mat_vec lenA)
  also have "\<dots> = (\<Sum>j < ?n. M ! i ! j * (\<Sum>k < ?n. A ! j ! k * f ! k))"
    by (intro sum.cong refl) (simp add: mat_vec_nth lenA len)
  also have "\<dots> = (\<Sum>j < ?n. \<Sum>k < ?n. (M ! i ! j * A ! j ! k) * f ! k)"
    by (simp add: sum_distrib_left mult.assoc)
  also have "\<dots> = (\<Sum>k < ?n. \<Sum>j < ?n. (M ! i ! j * A ! j ! k) * f ! k)"
    by (rule sum.swap)
  also have "\<dots> = (\<Sum>k < ?n. (\<Sum>j < ?n. M ! i ! j * A ! j ! k) * f ! k)"
    by (simp add: sum_distrib_right)
  also have "\<dots> = (\<Sum>k < ?n. (if i = k then 1 else 0) * f ! k)"
    by (intro sum.cong refl) (simp add: col)
  also have "\<dots> = (\<Sum>k < ?n. if k = i then f ! k else 0)"
    by (intro sum.cong refl) auto
  also have "\<dots> = f ! i" using i by simp
  finally show ?thesis .
qed

lemma FreeDofs_H1_dirichlet:
  "FreeDofs (H1 b True) = map (\<lambda>i. \<not> on_boundary b i) [0..<ndof b]"
  by (simp add: H1_def)

lemma int_load_vector_length:
  "int_load_vector mesh gh k = Some f \<Longrightarrow> length f = ndof (pm_lagrange mesh k)"
  by (auto simp: int_load_vector_def dest: all_some_length)

lemma int_mass_length:
  "int_mass mesh gh k = Some M \<Longrightarrow> length M = ndof (pm_lagrange mesh k)"
  by (auto simp: int_mass_def Let_def dest: all_some_length)

subsection \<open>The mesh of eight triangles\<close>

lemma sqrt2_div: "x / sqrt 2 / sqrt 2 = x / 2"
  by (simp add: divide_divide_eq_left)

lemma arccos_minus_half: "arccos (- (1 / 2)) = 2 * pi / 3"
  using arccos_minus [of "1 / 2"] by simp

lemma arccos_sqrt2_over_2: "arccos (sqrt 2 / 2) = pi / 4"
proof -
  have "arccos (cos (pi / 4)) = pi / 4" by (rule arccos_cos) simp_all
  then show ?thesis by (simp add: cos_45)
qed

lemma arccos_sqrt3_over_2: "arccos (sqrt 3 / 2) = pi / 6"
proof -
  have "arccos (cos (pi / 6)) = pi / 6" by (rule arccos_cos) simp_all
  then show ?thesis by (simp add: cos_30)
qed

lemma sqrt_half_bounds:
  "sqrt 2 / 2 \<le> 1" "- 1 \<le> sqrt 2 / 2" "sqrt 3 / 2 \<le> 1" "- 1 \<le> sqrt 3 / 2"
proof -
  have "sqrt 2 \<le> sqrt 4" "sqrt 3 \<le> sqrt 4" by (rule real_sqrt_le_mono, simp)+
  then show "sqrt 2 / 2 \<le> 1" "sqrt 3 / 2 \<le> 1" by simp_all
  have "0 \<le> sqrt 2 / 2" "0 \<le> sqrt 3 / 2" by simp_all
  then show "- 1 \<le> sqrt 2 / 2" "- 1 \<le> sqrt 3 / 2" by linarith+
qed

lemma three_over_sqrt3: "3 / (2 * sqrt 3) = sqrt 3 / 2"
proof -
  have "sqrt 3 * sqrt 3 = 3" by simp
  then show ?thesis by (simp add: field_simps)
qed

lemma cf_acos_values:
  "cf_acos 0 = Some (pi / 2)" "cf_acos (1 / 2) = Some (pi / 3)"
  "cf_acos (- (1 / 2)) = Some (2 * pi / 3)"
  "cf_acos (sqrt 2 / 2) = Some (pi / 4)" "cf_acos (sqrt 3 / 2) = Some (pi / 6)"
  using sqrt_half_bounds
  by (simp_all add: cf_acos_def arccos_minus_half arccos_sqrt2_over_2 arccos_sqrt3_over_2)

lemma tri_angldeficit:
  "map (angldeficit tri_gh) (pm_lf_dx_bbnd tri_mesh)
   = [Some (pi / 6), Some (- pi / 12), Some (- pi / 12),
      Some (- pi / 12), Some (- pi / 12), Some (pi / 6),
      Some (- pi / 6), Some (pi / 12), Some (pi / 12),
      Some (pi / 12), Some (pi / 12), Some (- pi / 6),
      Some (- pi / 6), Some (pi / 12), Some (pi / 12),
      Some (pi / 12), Some (pi / 12), Some (- pi / 6),
      Some (pi / 6), Some (- pi / 12), Some (- pi / 12),
      Some (- pi / 12), Some (- pi / 12), Some (pi / 6)]"
  by (simp add: tri_mesh_def tri_corner_pts_def tri_gh_def angldeficit_def Let_def
      cf_sqrt_def cf_div_def cf_acos_values sqrt2_div three_over_sqrt3)

lemma tri_geodesicurv:
  "list_all (\<lambda>p. geodesicurv tri_gh p = Some 0) (pm_lf_dx_boundary tri_mesh k)"
  by (simp add: tri_mesh_def tri_edge_pts_def tri_gh_def geodesicurv_def Let_def
      cf_sqrt_def cf_div_def contract3_def)

lemma tri_elementcurv: "elementcurv tri_gh p = Some 0"
  by (simp add: tri_gh_def elementcurv_def Let_def cf_sqrt_def cf_div_def)


lemmas tri_ang = tri_angldeficit [unfolded tri_mesh_def tri_corner_pts_def, simplified]

lemma tri_element_sum:
  "opt_sum (map (int_element_term V tri_gh i) ps) = Some 0"
  by (rule opt_sum_zero) (simp add: list_all_iff int_element_term_def tri_elementcurv)

lemma tri_edge_sum:
  "opt_sum (map (int_edge_term V tri_gh i) (pm_lf_dx_boundary tri_mesh k)) = Some 0"
proof (rule opt_sum_zero)
  show "list_all (\<lambda>p. int_edge_term V tri_gh i p = Some 0) (pm_lf_dx_boundary tri_mesh k)"
    using tri_geodesicurv [of k] by (simp add: list_all_iff int_edge_term_def)
qed

lemma vertex_term_at_vertex:
  assumes "list_all (\<lambda>p. shape V i (pv_id p) = (if pv_vertex p = i then 1 else 0)) cs"
    and "list_all (\<lambda>p. angldeficit gh p \<noteq> None) cs"
  shows "opt_sum (map (int_vertex_term V gh i) cs)
         = opt_sum (map (angldeficit gh) (filter (\<lambda>p. pv_vertex p = i) cs))"
  using assms
proof (induction cs)
  case Nil
  show ?case by simp
next
  case (Cons c cs)
  from Cons.prems obtain a where a: "angldeficit gh c = Some a" by auto
  have sh: "shape V i (pv_id c) = (if pv_vertex c = i then 1 else 0)"
    using Cons.prems by simp
  have IH: "opt_sum (map (int_vertex_term V gh i) cs)
         = opt_sum (map (angldeficit gh) (filter (\<lambda>p. pv_vertex p = i) cs))"
    using Cons by simp
  have hd: "int_vertex_term V gh i c = Some ((if pv_vertex c = i then 1 else 0) * a)"
    by (simp add: int_vertex_term_def a sh)
  have step: "opt_sum (map (int_vertex_term V gh i) (c # cs))
      = do { s \<leftarrow> opt_sum (map (angldeficit gh) (filter (\<lambda>p. pv_vertex p = i) cs));
             Some ((if pv_vertex c = i then 1 else 0) * a + s) }"
    by (simp only: list.map opt_sum.simps IH hd bind.bind_lunit)
  show ?case
    unfolding step
    by (cases "opt_sum (map (angldeficit gh) (filter (\<lambda>p. pv_vertex p = i) cs))")
       (simp_all add: a)
qed

lemma tri_corner_ids:
  "map (\<lambda>p. (pv_id p, pv_vertex p)) (pm_lf_dx_bbnd tri_mesh)
   = [(0, 0), (1, 1), (2, 3), (6, 3), (7, 1), (8, 4), (12, 1), (13, 2), (14, 4),
      (18, 4), (19, 2), (20, 5), (24, 3), (25, 4), (26, 6), (30, 6), (31, 4), (32, 7),
      (36, 4), (37, 5), (38, 7), (42, 7), (43, 5), (44, 8)]"
  by (simp add: tri_mesh_def tri_corner_pts_def)

lemma tri_nodal_values:
  "list_all (\<lambda>(p, v). list_all (\<lambda>i. tri_shape i p = (if v = i then 1 else 0)) [0..<9])
     [(0, 0), (1, 1), (2, 3), (6, 3), (7, 1), (8, 4), (12, 1), (13, 2), (14, 4),
      (18, 4), (19, 2), (20, 5), (24, 3), (25, 4), (26, 6), (30, 6), (31, 4), (32, 7),
      (36, 4), (37, 5), (38, 7), (42, 7), (43, 5), (44, 8)]"
  by code_simp

lemma tri_nodal:
  assumes "i < 9"
  shows "list_all (\<lambda>p. shape tri_basis i (pv_id p) = (if pv_vertex p = i then 1 else 0))
           (pm_lf_dx_bbnd tri_mesh)"
  unfolding list_all_iff
proof
  fix p assume "p \<in> set (pm_lf_dx_bbnd tri_mesh)"
  then have "(pv_id p, pv_vertex p) \<in> set (map (\<lambda>p. (pv_id p, pv_vertex p)) (pm_lf_dx_bbnd tri_mesh))"
    by (simp add: image_iff) blast
  with tri_nodal_values
  have "list_all (\<lambda>i. tri_shape i (pv_id p) = (if pv_vertex p = i then 1 else 0)) [0..<9]"
    unfolding tri_corner_ids list_all_iff by blast
  then show "shape tri_basis i (pv_id p) = (if pv_vertex p = i then 1 else 0)"
    using assms by (simp add: list_all_iff tri_basis_def)
qed

lemma tri_angldeficit_some:
  "list_all (\<lambda>p. angldeficit tri_gh p \<noteq> None) (pm_lf_dx_bbnd tri_mesh)"
proof -
  have "list_all (\<lambda>x. x \<noteq> None) (map (angldeficit tri_gh) (pm_lf_dx_bbnd tri_mesh))"
    unfolding tri_angldeficit by (simp del: not_None_eq)
  then show ?thesis by (simp add: list_all_iff del: not_None_eq)
qed

lemma tri_vertex_filter:
  assumes "i < 9"
  shows "opt_sum (map (int_vertex_term tri_basis tri_gh i) (pm_lf_dx_bbnd tri_mesh))
         = opt_sum (map (angldeficit tri_gh) (filter (\<lambda>p. pv_vertex p = i) (pm_lf_dx_bbnd tri_mesh)))"
  by (rule vertex_term_at_vertex [OF tri_nodal [OF assms] tri_angldeficit_some])

lemma tri_vertex_sum:
  "map (\<lambda>i. opt_sum (map (int_vertex_term tri_basis tri_gh i) (pm_lf_dx_bbnd tri_mesh)))
       [0, 1, 2, 3, 4, 5, 6, 7, 8]
   = [Some (pi / 6), Some (- pi / 3), Some (pi / 6),
      Some (- pi / 3), Some (2 * pi / 3), Some (- pi / 3),
      Some (pi / 6), Some (- pi / 3), Some (pi / 6)]"
  by (simp add: tri_vertex_filter) (simp add: tri_mesh_def tri_corner_pts_def tri_ang)

lemma tri_load_vector: "int_load_vector tri_mesh tri_gh k = Some tri_load"
proof -
  have lag: "pm_lagrange tri_mesh k = tri_basis" by (simp add: tri_mesh_def)
  have dx: "opt_sum (map (int_element_term tri_basis tri_gh i) (pm_lf_dx tri_mesh k)) = Some 0"
    for i by (rule tri_element_sum)
  have "map (int_load_entry tri_mesh tri_gh k) [0, 1, 2, 3, 4, 5, 6, 7, 8] = map Some tri_load"
    using tri_vertex_sum
    by (simp add: int_load_entry_def Let_def lag dx tri_edge_sum tri_load_def)
  moreover have "[0..<ndof (pm_lagrange tri_mesh k)] = [0, 1, 2, 3, 4, 5, 6, 7, 8]"
    by (simp add: lag tri_basis_def upt_rec [of _ 9])
  ultimately show ?thesis
    by (simp add: int_load_vector_def tri_load_def)
qed

lemma tri_Det: "Det2 (gf tri_gh p) = 3"
  by (simp add: tri_gh_def Let_def)

lemma tri_int_mass: "int_mass tri_mesh tri_gh k = Some tri_mass"
proof -
  have lag: "pm_lagrange tri_mesh k = tri_basis" by (simp add: tri_mesh_def)
  have mt: "int_mass_term tri_basis tri_gh i j p
      = Some (sqrt 3 * tri_shape j (pe_id p) * tri_shape i (pe_id p) * pe_weight p)" for i j p
    by (simp add: int_mass_term_def tri_Det cf_sqrt_def tri_basis_def)
  have entry: "opt_sum (map (int_mass_term tri_basis tri_gh i j) (pm_bf_dx tri_mesh k))
      = Some (tri_mass_entry i j)" for i j
    unfolding mt opt_sum_Some
    by (simp add: tri_mesh_def tri_mass_entry_def comp_def)
  have row: "all_some (map (\<lambda>j. opt_sum (map (int_mass_term tri_basis tri_gh i j)
                                             (pm_bf_dx tri_mesh k))) [0..<9])
      = Some (map (tri_mass_entry i) [0..<9])" for i
    by (rule all_some_map) (simp add: entry)
  have "all_some (map (\<lambda>i. all_some (map (\<lambda>j. opt_sum (map (int_mass_term tri_basis tri_gh i j)
                                             (pm_bf_dx tri_mesh k))) [0..<9])) [0..<9])
      = Some (map (\<lambda>i. map (tri_mass_entry i) [0..<9]) [0..<9])"
    by (rule all_some_map) (simp add: row)
  then show ?thesis
    by (simp add: int_mass_def Let_def lag tri_mass_def tri_basis_def)
qed

lemma tri_mass_44: "tri_mass_entry 4 4 = sqrt 3 * (1 / 2)"
proof -
  have "(\<Sum>p\<leftarrow>tri_elem_pts. tri_shape 4 (pe_id p) * tri_shape 4 (pe_id p) * pe_weight p) = 1 / 2"
    by code_simp
  then have "sqrt 3 * (\<Sum>p\<leftarrow>tri_elem_pts. tri_shape 4 (pe_id p) * tri_shape 4 (pe_id p) * pe_weight p)
             = sqrt 3 * (1 / 2)" by simp
  then show ?thesis
    by (simp only: tri_mass_entry_def sum_list_const_mult mult.assoc)
qed

lemma tri_mass_14: "tri_mass_entry 1 4 = sqrt 3 * (1 / 12)"
proof -
  have "(\<Sum>p\<leftarrow>tri_elem_pts. tri_shape 4 (pe_id p) * tri_shape 1 (pe_id p) * pe_weight p) = 1 / 12"
    by code_simp
  then have "sqrt 3 * (\<Sum>p\<leftarrow>tri_elem_pts. tri_shape 4 (pe_id p) * tri_shape 1 (pe_id p) * pe_weight p)
             = sqrt 3 * (1 / 12)" by simp
  then show ?thesis
    by (simp only: tri_mass_entry_def sum_list_const_mult mult.assoc)
qed


lemma one_dof_Inverse_nth:
  "i < length M \<Longrightarrow> k < length M \<Longrightarrow>
   one_dof_Inverse M free ! i ! k = (if free ! i \<and> free ! k then 1 / M ! i ! k else 0)"
  by (simp add: one_dof_Inverse_def)

lemma one_dof_inverse_on:
  assumes len: "length free = length M"
    and sq: "\<And>i. i < length M \<Longrightarrow> length (M ! i) = length M"
    and c: "c < length M" "free ! c"
    and only: "\<And>i. i < length M \<Longrightarrow> free ! i \<Longrightarrow> i = c"
    and nz: "M ! c ! c \<noteq> 0"
  shows "inverse_on M free (one_dof_Inverse M free)"
proof -
  let ?n = "length M"
  let ?A = "one_dof_Inverse M free"
  have lenA: "length ?A = ?n" "\<And>i. i < ?n \<Longrightarrow> length (?A ! i) = ?n"
    by (simp_all add: one_dof_Inverse_def)
  have zero: "?A ! i ! k = 0" if "i < ?n" "k < ?n" "\<not> (free ! i \<and> free ! k)" for i k
    using that by (auto simp: one_dof_Inverse_nth)
  have unit: "(\<Sum>j < ?n. M ! i ! j * ?A ! j ! k) = (if i = k then 1 else 0)"
    if "i < ?n" "k < ?n" "free ! i \<and> free ! k" for i k
  proof -
    have ik: "i = c" "k = c" using only that by auto
    have "(\<Sum>j < ?n. M ! c ! j * ?A ! j ! c) = (\<Sum>j < ?n. if j = c then 1 else 0)"
    proof (rule sum.cong [OF refl])
      fix j assume "j \<in> {..<?n}"
      then have j: "j < ?n" by simp
      show "M ! c ! j * ?A ! j ! c = (if j = c then 1 else 0)"
      proof (cases "j = c")
        case True
        have "?A ! c ! c = 1 / M ! c ! c"
          using c by (simp add: one_dof_Inverse_nth)
        then show ?thesis using nz True by simp
      next
        case False
        then have "\<not> free ! j" using only [OF j] by blast
        then have "?A ! j ! c = 0" using j c by (simp add: one_dof_Inverse_nth)
        then show ?thesis using False by simp
      qed
    qed
    also have "\<dots> = 1" using c by simp
    finally show ?thesis by (simp add: ik)
  qed
  show ?thesis
    unfolding inverse_on_def using len sq lenA zero unit by auto
qed

lemma one_dof_lift:
  assumes c: "c < length M" "free ! c"
    and only: "\<And>i. i < length M \<Longrightarrow> free ! i \<Longrightarrow> i = c"
    and lenf: "length f = length M" and i: "i < length M"
  shows "mat_vec (one_dof_Inverse M free) f ! i = (if i = c then f ! c / M ! c ! c else 0)"
proof -
  let ?n = "length M"
  have "mat_vec (one_dof_Inverse M free) f ! i
        = (\<Sum>k < ?n. one_dof_Inverse M free ! i ! k * f ! k)"
    using i by (simp add: mat_vec_nth one_dof_Inverse_def lenf)
  also have "\<dots> = (\<Sum>k < ?n. if k = c then (if i = c then f ! c / M ! c ! c else 0) else 0)"
  proof (rule sum.cong [OF refl])
    fix k assume "k \<in> {..<?n}"
    then have k: "k < ?n" by simp
    show "one_dof_Inverse M free ! i ! k * f ! k
          = (if k = c then (if i = c then f ! c / M ! c ! c else 0) else 0)"
    proof (cases "free ! i \<and> free ! k")
      case True
      then have ik: "i = c" "k = c" using only [OF i] only [OF k] by simp_all
      have "one_dof_Inverse M free ! c ! c = 1 / M ! c ! c"
        using c by (simp add: one_dof_Inverse_nth)
      then show ?thesis by (simp add: ik)
    next
      case False
      then have nik: "\<not> (i = c \<and> k = c)" using c by blast
      have "one_dof_Inverse M free ! i ! k = 0"
        using False i k by (auto simp: one_dof_Inverse_nth)
      then show ?thesis using nik by auto
    qed
  qed
  also have "\<dots> = (if i = c then f ! c / M ! c ! c else 0)" using c by simp
  finally show ?thesis .
qed

lemma one_dof_product:
  assumes c: "c < length M" "free ! c"
    and only: "\<And>i. i < length M \<Longrightarrow> free ! i \<Longrightarrow> i = c"
    and lenf: "length f = length M" and i: "i < length M"
  shows "mat_vec M (mat_vec (one_dof_Inverse M free) f) ! i = M ! i ! c * (f ! c / M ! c ! c)"
proof -
  let ?n = "length M"
  let ?x = "mat_vec (one_dof_Inverse M free) f"
  have lenx: "length ?x = ?n" by (simp add: length_mat_vec one_dof_Inverse_def)
  have "mat_vec M ?x ! i = (\<Sum>j < ?n. M ! i ! j * ?x ! j)"
    using i by (simp add: mat_vec_nth lenx)
  also have "\<dots> = (\<Sum>j < ?n. if j = c then M ! i ! c * (f ! c / M ! c ! c) else 0)"
    by (intro sum.cong refl) (simp add: one_dof_lift [OF c only lenf])
  also have "\<dots> = M ! i ! c * (f ! c / M ! c ! c)" using c by simp
  finally show ?thesis .
qed

lemma tri_free: "FreeDofs (H1 (pm_lagrange tri_mesh k) True)
    = [False, False, False, False, True, False, False, False, False]"
  by (simp add: H1_def tri_mesh_def tri_basis_def upt_rec [of _ 9])

lemma tri_mass_shape:
  "length tri_mass = 9" "i < 9 \<Longrightarrow> length (tri_mass ! i) = 9"
  "i < 9 \<Longrightarrow> j < 9 \<Longrightarrow> tri_mass ! i ! j = tri_mass_entry i j"
  by (simp_all add: tri_mass_def)

lemma tri_only_free:
  "i < 9 \<Longrightarrow> [False, False, False, False, True, False, False, False, False] ! i \<Longrightarrow> i = 4"
  by (simp add: nth_Cons' split: if_splits)

lemma tri_inverse_on:
  "inverse_on tri_mass (FreeDofs (H1 (pm_lagrange tri_mesh k) True))
     (one_dof_Inverse tri_mass (FreeDofs (H1 (pm_lagrange tri_mesh k) True)))"
  unfolding tri_free
proof (rule one_dof_inverse_on [where c = 4])
  show "tri_mass ! 4 ! 4 \<noteq> 0" by (simp add: tri_mass_shape tri_mass_44)
qed (simp_all add: tri_mass_shape tri_only_free)

lemma tri_liftK:
  "GeneralizedGaussCurvature one_dof_Inverse tri_mesh tri_gh k
   = Some [0, 0, 0, 0, 4 * pi / (3 * sqrt 3), 0, 0, 0, 0]"
proof -
  let ?free = "[False, False, False, False, True, False, False, False, False]"
  let ?x = "mat_vec (one_dof_Inverse tri_mass ?free) tri_load"
  have G: "GeneralizedGaussCurvature one_dof_Inverse tri_mesh tri_gh k = Some ?x"
    by (simp add: GeneralizedGaussCurvature_def Let_def tri_int_mass tri_load_vector tri_free)
  have len: "length ?x = 9" by (simp add: length_mat_vec one_dof_Inverse_def tri_mass_shape)
  have nth: "?x ! i = (if i = 4 then tri_load ! 4 / tri_mass ! 4 ! 4 else 0)" if "i < 9" for i
    by (rule one_dof_lift [where c = 4])
       (simp_all add: tri_mass_shape tri_only_free tri_load_def that)
  have v: "tri_load ! 4 / tri_mass ! 4 ! 4 = 4 * pi / (3 * sqrt 3)"
    by (simp add: tri_mass_shape tri_mass_44 tri_load_def field_simps)
  have "?x = [0, 0, 0, 0, 4 * pi / (3 * sqrt 3), 0, 0, 0, 0]"
    using len by (intro nth_equalityI) (auto simp: nth v nth_Cons' simp del: upt_Suc)
  then show ?thesis using G by simp
qed

lemma tri_residual:
  assumes "i < 9"
  shows "lifting_residual one_dof_Inverse tri_mesh tri_gh k i
         = Some (tri_mass_entry i 4 * (4 * pi / (3 * sqrt 3)) - tri_load ! i)"
proof -
  let ?free = "[False, False, False, False, True, False, False, False, False]"
  let ?x = "mat_vec (one_dof_Inverse tri_mass ?free) tri_load"
  have G: "GeneralizedGaussCurvature one_dof_Inverse tri_mesh tri_gh k = Some ?x"
    by (simp add: GeneralizedGaussCurvature_def Let_def tri_int_mass tri_load_vector tri_free)
  have p: "mat_vec tri_mass ?x ! i = tri_mass ! i ! 4 * (tri_load ! 4 / tri_mass ! 4 ! 4)"
    by (rule one_dof_product [where c = 4])
       (simp_all add: tri_mass_shape tri_only_free tri_load_def assms)
  have v: "tri_load ! 4 / tri_mass ! 4 ! 4 = 4 * pi / (3 * sqrt 3)"
    by (simp add: tri_mass_shape tri_mass_44 tri_load_def field_simps)
  have e: "tri_mass ! i ! 4 = tri_mass_entry i 4"
    using assms by (simp add: tri_mass_shape)
  have "lifting_residual one_dof_Inverse tri_mesh tri_gh k i
        = Some (mat_vec tri_mass ?x ! i - tri_load ! i)"
    by (simp add: lifting_residual_def tri_int_mass tri_load_vector G)
  then show ?thesis by (simp only: p v e)
qed

lemma tri_residual_1:
  "lifting_residual one_dof_Inverse tri_mesh tri_gh k 1 = Some (4 * pi / 9)"
proof -
  have s3: "sqrt 3 * (1 / 12) * (4 * pi / (3 * sqrt 3)) = pi / 9"
    by (simp add: field_simps)
  have l1: "tri_load ! 1 = - pi / 3" by (simp add: tri_load_def)
  have "tri_mass_entry 1 4 * (4 * pi / (3 * sqrt 3)) - tri_load ! 1 = pi / 9 - (- pi / 3)"
    by (simp only: tri_mass_14 s3 l1)
  also have "\<dots> = 4 * pi / 9" by simp
  finally show ?thesis using tri_residual [of 1 k] by simp
qed

subsection \<open>Dirichlet conditions of the lifted curvature\<close>

text \<open>
  C9.  When the mass matrix and the load vector are assembled and the solver returns
  the inverse on the free degrees of freedom, \<open>GeneralizedGaussCurvature\<close> returns a
  coefficient vector: the free degrees of freedom of its space are those not on the
  boundary; every boundary entry of the result is zero; and the lifting equation holds
  for the basis function of every degree of freedom that is not on the boundary.  On
  the mesh of eight triangles it does not hold for the basis function of boundary vertex
  1, where the residual is \<open>4 pi / 9\<close>.
\<close>

theorem GeneralizedGaussCurvature_dirichlet:
  assumes M: "int_mass mesh gh k = Some M"
    and f: "int_load_vector mesh gh k = Some f"
    and inv: "inverse_on M (FreeDofs (H1 (pm_lagrange mesh k) True))
                (Inverse M (FreeDofs (H1 (pm_lagrange mesh k) True)))"
  shows "\<exists>liftK. GeneralizedGaussCurvature Inverse mesh gh k = Some liftK
     \<and> length liftK = ndof (pm_lagrange mesh k)
     \<and> FreeDofs (H1 (pm_lagrange mesh k) True)
         = map (\<lambda>i. \<not> on_boundary (pm_lagrange mesh k) i) [0..<ndof (pm_lagrange mesh k)]
     \<and> (\<forall>i < ndof (pm_lagrange mesh k).
           on_boundary (pm_lagrange mesh k) i \<longrightarrow> liftK ! i = 0)
     \<and> (\<forall>i < ndof (pm_lagrange mesh k).
           \<not> on_boundary (pm_lagrange mesh k) i \<longrightarrow>
             mat_vec M liftK ! i = f ! i
             \<and> lifting_residual Inverse mesh gh k i = Some 0)"
proof -
  let ?V = "pm_lagrange mesh k"
  let ?free = "FreeDofs (H1 ?V True)"
  let ?x = "mat_vec (Inverse M ?free) f"
  have lenM: "length M = ndof ?V" by (rule int_mass_length [OF M])
  have lenf: "length f = length M" using int_load_vector_length [OF f] lenM by simp
  have G: "GeneralizedGaussCurvature Inverse mesh gh k = Some ?x"
    by (simp add: GeneralizedGaussCurvature_def Let_def M f)
  have lenx: "length ?x = ndof ?V"
    using inv lenM by (simp add: length_mat_vec inverse_on_def)
  have free: "?free ! i = (\<not> on_boundary ?V i)" if "i < ndof ?V" for i
    using that by (simp add: FreeDofs_H1_dirichlet)
  have z: "?x ! i = 0" if "i < ndof ?V" "on_boundary ?V i" for i
    using lift_zero_on_constrained [OF inv lenf, of i] that lenM free by simp
  have s: "mat_vec M ?x ! i = f ! i" if "i < ndof ?V" "\<not> on_boundary ?V i" for i
    using lift_solves_on_free [OF inv lenf, of i] that lenM free by simp
  have r: "lifting_residual Inverse mesh gh k i = Some 0"
    if "i < ndof ?V" "\<not> on_boundary ?V i" for i
    using s [OF that] by (simp add: lifting_residual_def M f G)
  show ?thesis
    using G lenx z s r by (intro exI [of _ ?x]) (simp add: FreeDofs_H1_dirichlet)
qed

theorem GeneralizedGaussCurvature_dirichlet_witness:
  "int_mass tri_mesh tri_gh 1 = Some tri_mass
   \<and> int_load_vector tri_mesh tri_gh 1 = Some tri_load
   \<and> inverse_on tri_mass (FreeDofs (H1 (pm_lagrange tri_mesh 1) True))
        (one_dof_Inverse tri_mass (FreeDofs (H1 (pm_lagrange tri_mesh 1) True)))
   \<and> GeneralizedGaussCurvature one_dof_Inverse tri_mesh tri_gh 1
       = Some [0, 0, 0, 0, 4 * pi / (3 * sqrt 3), 0, 0, 0, 0]
   \<and> lifting_residual one_dof_Inverse tri_mesh tri_gh 1 4 = Some 0
   \<and> lifting_residual one_dof_Inverse tri_mesh tri_gh 1 1 = Some (4 * pi / 9)"
proof -
  have nb: "4 < ndof (pm_lagrange tri_mesh 1)" "\<not> on_boundary (pm_lagrange tri_mesh 1) 4"
    by (simp_all add: tri_mesh_def tri_basis_def)
  from GeneralizedGaussCurvature_dirichlet
    [where Inverse = one_dof_Inverse,
     OF tri_int_mass [of 1] tri_load_vector [of 1] tri_inverse_on [of 1]] nb
  have "lifting_residual one_dof_Inverse tri_mesh tri_gh 1 4 = Some 0" by blast
  then show ?thesis
    using tri_int_mass [of 1] tri_load_vector [of 1] tri_inverse_on [of 1]
      tri_liftK [of 1] tri_residual_1 [of 1]
    by simp
qed

subsection \<open>The functional and its lifting\<close>






















end
